theory Spec2Isabelle
  imports Complex_Main "HOL-Library.Word"
begin

section \<open>License keys (services/crypto.js, generateLicenseKey)\<close>

text \<open>
  JavaScript strings are modelled as \<open>string\<close>. \<open>s.charAt(i)\<close> is the one-character
  string at index \<open>i\<close>, and the empty string when \<open>i\<close> is out of range.
\<close>

definition charAt :: "string \<Rightarrow> nat \<Rightarrow> string" where
  "charAt s i = (if i < length s then [s ! i] else [])"

definition chars :: string where
  "chars = ''ABCDEFGHIJKLMNOPQRSTUVWXYZ0123456789''"

text \<open>
  \<open>Math.random()\<close> is an input of the model: \<open>rnd k\<close> is the value of the \<open>k\<close>-th call,
  a real number that the language guarantees to lie in \<open>[0, 1)\<close>. The loops thread the
  number of calls made so far.

  \<^verbatim>\<open>for (let j = 0; j < 4; j++) {
      key += chars.charAt(Math.floor(Math.random() * chars.length)); }\<close>
\<close>

function inner_loop :: "(nat \<Rightarrow> real) \<Rightarrow> nat \<Rightarrow> nat \<Rightarrow> string \<Rightarrow> string \<times> nat" where
  "inner_loop rnd j k key =
     (if j < 4
      then inner_loop rnd (j + 1) (k + 1)
             (key @ charAt chars (nat \<lfloor>rnd k * real (length chars)\<rfloor>))
      else (key, k))"
  by pat_completeness auto
termination
  by (relation "measure (\<lambda>(rnd, j, k, key). 4 - j)") auto

declare inner_loop.simps [simp del]

text \<open>
  \<^verbatim>\<open>for (let i = 0; i < 4; i++) { key += '-'; <inner loop> }\<close>
\<close>

function outer_loop :: "(nat \<Rightarrow> real) \<Rightarrow> nat \<Rightarrow> nat \<Rightarrow> string \<Rightarrow> string \<times> nat" where
  "outer_loop rnd i k key =
     (if i < 4
      then (case inner_loop rnd 0 k (key @ ''-'') of
              (key', k') \<Rightarrow> outer_loop rnd (i + 1) k' key')
      else (key, k))"
  by pat_completeness auto
termination
  by (relation "measure (\<lambda>(rnd, i, k, key). 4 - i)") auto

declare outer_loop.simps [simp del]

definition generateLicenseKey :: "(nat \<Rightarrow> real) \<Rightarrow> string" where
  "generateLicenseKey rnd = fst (outer_loop rnd 0 0 ''RATO'')"

subsection \<open>The key format of the specification\<close>

text \<open>
  The pattern \<^verbatim>\<open>^RATO(-[A-Z0-9]{4}){4}$\<close>, written from the specification's words and
  independent of the generator: \<open>in_A_Z_0_9\<close> is the character class, \<open>dash_groups n\<close>
  recognises \<open>n\<close> repetitions of a dash followed by four characters of the class, and
  nothing after them.
\<close>

definition in_A_Z_0_9 :: "char \<Rightarrow> bool" where
  "in_A_Z_0_9 c =
     (let n = (of_char c :: nat) in (65 \<le> n \<and> n \<le> 90) \<or> (48 \<le> n \<and> n \<le> 57))"

fun dash_groups :: "nat \<Rightarrow> string \<Rightarrow> bool" where
  "dash_groups 0 s = (s = [])"
| "dash_groups (Suc n) s =
     (case s of
        d # c1 # c2 # c3 # c4 # rest \<Rightarrow>
          d = CHR ''-'' \<and> in_A_Z_0_9 c1 \<and> in_A_Z_0_9 c2 \<and> in_A_Z_0_9 c3 \<and> in_A_Z_0_9 c4
          \<and> dash_groups n rest
      | _ \<Rightarrow> False)"

definition matches_key_pattern :: "string \<Rightarrow> bool" where
  "matches_key_pattern s = (take 4 s = ''RATO'' \<and> dash_groups 4 (drop 4 s))"


section \<open>The platform: Node.js, the JavaScript runtime and SQLite\<close>

text \<open>
  The repository calls library functions whose code is not part of it: the \<open>crypto\<close>
  module of Node.js (scrypt, AES-256-GCM, HMAC-SHA256), \<open>JSON\<close>, \<open>Date\<close> with the local
  time zone, and SQLite's \<open>CURRENT_TIMESTAMP\<close>. They are parameters of the model,
  collected in the record \<open>platform\<close>; the repository's own functions are translated on
  top of them, and a theorem that needs a property of a library function states it as a
  hypothesis.

  A buffer is a list of bytes. Instants are JavaScript time values: milliseconds since the
  epoch, as integers.
\<close>

type_synonym byte = "8 word"

text \<open>
  The object that \<open>createOfflineToken\<close> encrypts and \<open>verifyOfflineToken\<close> reads. After
  \<open>JSON.parse\<close> a property may be absent: \<open>None\<close> is JavaScript's \<open>undefined\<close>. Properties
  holding JSON values other than strings are outside the model.
\<close>

record token_data =
  t_key :: "string option"
  t_machineId :: "string option"
  t_expiresAt :: "string option"
  t_plan :: "string option"
  t_createdAt :: "string option"
  t_validationSignature :: "string option"

text \<open>
  A JavaScript value as \<open>verifyOfflineToken\<close> sees the result of \<open>decryptLicenseData\<close>:
  \<open>Falsy\<close> is \<open>null\<close> (and the other values that \<open>!data\<close> rejects), \<open>Truthy d\<close> is any
  other value, seen through the properties that are read from it.
\<close>

datatype parsed = Falsy | Truthy token_data

record platform =
  toISOString :: "int \<Rightarrow> string"
    \<comment> \<open>\<open>Date.prototype.toISOString\<close> of the date with the given time value\<close>
  parseDate :: "string \<Rightarrow> int option"
    \<comment> \<open>the time value of \<open>new Date(s)\<close>; \<open>None\<close> is NaN, an invalid date\<close>
  LocalTZA :: "int \<Rightarrow> int"
    \<comment> \<open>the offset of local time from UTC, in milliseconds, that ECMAScript's \<open>UTC(t)\<close>
        uses for the local time value \<open>t\<close>\<close>
  CURRENT_TIMESTAMP :: "int \<Rightarrow> string"
    \<comment> \<open>the text SQLite stores for \<open>DEFAULT CURRENT_TIMESTAMP\<close> at the given instant\<close>
  scryptSync :: "string \<Rightarrow> string \<Rightarrow> nat \<Rightarrow> byte list"
  aes_256_gcm_encrypt :: "byte list \<Rightarrow> byte list \<Rightarrow> string \<Rightarrow> byte list \<times> byte list"
    \<comment> \<open>key, IV, plaintext; the result is the ciphertext and the authentication tag\<close>
  aes_256_gcm_decrypt :: "byte list \<Rightarrow> byte list \<Rightarrow> byte list \<Rightarrow> byte list \<Rightarrow> string option"
    \<comment> \<open>key, IV, authentication tag, ciphertext bytes; \<open>None\<close> when a call on the
        decipher throws for them\<close>
  hmac_sha256_hex :: "string \<Rightarrow> string \<Rightarrow> string"
    \<comment> \<open>secret, message; the digest in hexadecimal\<close>
  JSON_stringify :: "token_data \<Rightarrow> string"
  JSON_parse :: "string \<Rightarrow> parsed option"
    \<comment> \<open>\<open>None\<close> when \<open>JSON.parse\<close> throws\<close>

subsection \<open>Hexadecimal encoding of buffers\<close>

text \<open>
  \<open>buf.toString('hex')\<close> writes two lower-case digits per byte. \<open>Buffer.from(s, 'hex')\<close>
  reads pairs of digits of either case and stops at the first pair that is not
  hexadecimal; a trailing single character is dropped.
\<close>

definition hex_digit :: "nat \<Rightarrow> char" where
  "hex_digit n = ''0123456789abcdef'' ! n"

definition toHex :: "byte list \<Rightarrow> string" where
  "toHex bs = concat (map (\<lambda>b. [hex_digit (unat b div 16), hex_digit (unat b mod 16)]) bs)"

definition hex_value :: "char \<Rightarrow> nat option" where
  "hex_value c =
     (let n = (of_char c :: nat) in
      if 48 \<le> n \<and> n \<le> 57 then Some (n - 48)
      else if 97 \<le> n \<and> n \<le> 102 then Some (n - 87)
      else if 65 \<le> n \<and> n \<le> 70 then Some (n - 55)
      else None)"

fun fromHex :: "string \<Rightarrow> byte list" where
  "fromHex (a # b # rest) =
     (case (hex_value a, hex_value b) of
        (Some x, Some y) \<Rightarrow> of_nat (16 * x + y) # fromHex rest
      | _ \<Rightarrow> [])"
| "fromHex _ = []"

text \<open>
  A string passed to \<open>decipher.update(data, 'hex', ...)\<close>: the call throws when the length
  of the string is odd; a string of even length is decoded as \<open>Buffer.from\<close> decodes it.
  \<open>None\<close> is the exception.
\<close>

definition hex_input :: "string \<Rightarrow> byte list option" where
  "hex_input s = (if odd (length s) then None else Some (fromHex s))"

text \<open>\<open>s.slice(a, b)\<close> and \<open>s.slice(a)\<close> for indices within \<open>0 \<le> a \<le> b\<close>.\<close>

definition slice_js :: "string \<Rightarrow> nat \<Rightarrow> nat \<Rightarrow> string" where
  "slice_js s a b = take (b - a) (drop a s)"

definition slice_from :: "string \<Rightarrow> nat \<Rightarrow> string" where
  "slice_from s a = drop a s"

definition startsWith :: "string \<Rightarrow> string \<Rightarrow> bool" where
  "startsWith s p = (take (length p) s = p)"

section \<open>Offline tokens (services/crypto.js)\<close>

definition licenseSecret :: string where
  "licenseSecret = ''ratoengine-license-encryption-key-v1''"

definition IV_LENGTH :: nat where "IV_LENGTH = 16"

definition AUTH_TAG_LENGTH :: nat where "AUTH_TAG_LENGTH = 16"

definition getEncryptionKey :: "platform \<Rightarrow> byte list" where
  "getEncryptionKey pf = scryptSync pf licenseSecret ''salt'' 32"

text \<open>\<open>iv\<close> is the result of \<open>crypto.randomBytes(IV_LENGTH)\<close>, an input of the model.\<close>

definition encryptLicenseData :: "platform \<Rightarrow> byte list \<Rightarrow> token_data \<Rightarrow> string" where
  "encryptLicenseData pf iv data =
     (let key = getEncryptionKey pf in
      case aes_256_gcm_encrypt pf key iv (JSON_stringify pf data) of
        (encrypted, authTag) \<Rightarrow> toHex iv @ toHex authTag @ toHex encrypted)"

text \<open>
  The whole body of \<open>decryptLicenseData\<close> is inside \<open>try\<close>; the \<open>catch\<close> returns \<open>null\<close>.
  The IV and the tag are decoded by \<open>Buffer.from(..., 'hex')\<close>; the rest of the token goes
  to \<open>decipher.update(encrypted, 'hex', 'utf8')\<close> as a string.
\<close>

definition decryptLicenseData :: "platform \<Rightarrow> string \<Rightarrow> parsed" where
  "decryptLicenseData pf encryptedData =
     (let key = getEncryptionKey pf;
          iv = fromHex (slice_js encryptedData 0 (IV_LENGTH * 2));
          authTag = fromHex (slice_js encryptedData (IV_LENGTH * 2)
                               (IV_LENGTH * 2 + AUTH_TAG_LENGTH * 2));
          encrypted = slice_from encryptedData (IV_LENGTH * 2 + AUTH_TAG_LENGTH * 2)
      in case hex_input encrypted of
           None \<Rightarrow> Falsy
         | Some ciphertext \<Rightarrow>
             (case aes_256_gcm_decrypt pf key iv authTag ciphertext of
                None \<Rightarrow> Falsy
              | Some decrypted \<Rightarrow>
                  (case JSON_parse pf decrypted of None \<Rightarrow> Falsy | Some v \<Rightarrow> v)))"


subsection \<open>The license read by createOfflineToken\<close>

text \<open>
  A license as the functions of this module read it: the row of the \<open>licenses\<close> table,
  one field per column. \<open>machines_used\<close> is a TEXT column holding a JSON array of machine
  identifiers; the model keeps the array itself, and \<open>None\<close> stands for a text that
  \<open>license.machines_used || '[]'\<close> or the \<open>catch\<close> around \<open>JSON.parse\<close> replaces by the
  empty array (NULL, the empty text, a text that does not parse). The code writes only
  \<open>JSON.stringify\<close> of an array of strings and \<open>'[]'\<close> into the column.
\<close>

record license =
  row_id :: int
  key :: string
  email :: "string option"
  plan :: string
  max_machines :: int
  machines_used :: "string list option"
  status :: string
  created_at :: string
  expires_at :: string
  last_validated :: "string option"

text \<open>
  \<open>now\<close> is the time value of \<open>new Date()\<close> at the call; \<open>token_fields\<close> is the object
  literal \<open>data\<close> of \<open>createOfflineToken\<close>.

  \<^verbatim>\<open>validationSignature: crypto.createHmac('sha256', config.licenseSecret)
      .update(license.key + machineId + license.expires_at).digest('hex')\<close>
\<close>

definition token_fields :: "platform \<Rightarrow> int \<Rightarrow> license \<Rightarrow> string \<Rightarrow> token_data" where
  "token_fields pf now license machineId =
     \<lparr> t_key = Some (key license),
       t_machineId = Some machineId,
       t_expiresAt = Some (expires_at license),
       t_plan = Some (plan license),
       t_createdAt = Some (toISOString pf now),
       t_validationSignature =
         Some (hmac_sha256_hex pf licenseSecret
                 (key license @ machineId @ expires_at license)) \<rparr>"

definition createOfflineToken :: "platform \<Rightarrow> byte list \<Rightarrow> int \<Rightarrow> license \<Rightarrow> string \<Rightarrow> string" where
  "createOfflineToken pf iv now license machineId =
     (let data = token_fields pf now license machineId
      in encryptLicenseData pf iv data)"

subsection \<open>The JavaScript operations on the decrypted properties\<close>

text \<open>
  \<open>a + b\<close> on values that are a string, \<open>undefined\<close> or the number NaN: with a string on
  either side the other operand is converted to a string and the two are concatenated;
  without one both are converted to numbers, \<open>undefined\<close> to NaN, and the sum is NaN.
\<close>

datatype js_prim = Undefined | Str string | NaN

definition property :: "string option \<Rightarrow> js_prim" where
  "property v = (case v of None \<Rightarrow> Undefined | Some s \<Rightarrow> Str s)"

fun ToString :: "js_prim \<Rightarrow> string" where
  "ToString Undefined = ''undefined''"
| "ToString (Str s) = s"
| "ToString NaN = ''NaN''"

fun js_plus :: "js_prim \<Rightarrow> js_prim \<Rightarrow> js_prim" where
  "js_plus (Str a) y = Str (a @ ToString y)"
| "js_plus x (Str b) = Str (ToString x @ b)"
| "js_plus x y = NaN"

datatype js_error = TypeError

text \<open>
  \<open>hmac.update(data)\<close> throws a TypeError when \<open>data\<close> is not a string (or a buffer).
\<close>

definition hmac_update_digest :: "platform \<Rightarrow> string \<Rightarrow> js_prim \<Rightarrow> js_error + string" where
  "hmac_update_digest pf secret v =
     (case v of Str s \<Rightarrow> Inr (hmac_sha256_hex pf secret s) | _ \<Rightarrow> Inl TypeError)"

text \<open>
  \<open>new Date(x) < new Date()\<close>: \<open>new Date(undefined)\<close> and the date of a string that does not
  parse are invalid, their time value is NaN and the comparison is false.
\<close>

definition date_before :: "platform \<Rightarrow> string option \<Rightarrow> int \<Rightarrow> bool" where
  "date_before pf x now =
     (case x of
        None \<Rightarrow> False
      | Some s \<Rightarrow> (case parseDate pf s of None \<Rightarrow> False | Some t \<Rightarrow> t < now))"

text \<open>The result object of \<open>verifyOfflineToken\<close>: \<open>{valid: false, reason}\<close> or \<open>{valid: true, data}\<close>.\<close>

datatype verification = Unverified string | Verified token_data

definition verifyOfflineToken :: "platform \<Rightarrow> int \<Rightarrow> string \<Rightarrow> js_error + verification" where
  "verifyOfflineToken pf now token =
     (case decryptLicenseData pf token of
        Falsy \<Rightarrow> Inr (Unverified ''Invalid token'')
      | Truthy data \<Rightarrow>
          if date_before pf (t_expiresAt data) now then Inr (Unverified ''License expired'')
          else
            (case hmac_update_digest pf licenseSecret
                    (js_plus (js_plus (property (t_key data)) (property (t_machineId data)))
                       (property (t_expiresAt data))) of
               Inl e \<Rightarrow> Inl e
             | Inr expectedSignature \<Rightarrow>
                 if t_validationSignature data \<noteq> Some expectedSignature
                 then Inr (Unverified ''Invalid signature'')
                 else Inr (Verified data)))"

subsection \<open>What the token round trip needs from the library\<close>

text \<open>
  The contract of the library functions for one IV and one object \<open>d\<close>: AES-256-GCM
  returns a tag of 16 bytes and decrypts, under the same key, IV and tag, what it
  encrypted; \<open>JSON.parse\<close> reads back the object that \<open>JSON.stringify\<close> wrote.
\<close>

definition seals_correctly :: "platform \<Rightarrow> byte list \<Rightarrow> token_data \<Rightarrow> bool" where
  "seals_correctly pf iv d =
     ((case aes_256_gcm_encrypt pf (getEncryptionKey pf) iv (JSON_stringify pf d) of
         (encrypted, authTag) \<Rightarrow>
           length authTag = AUTH_TAG_LENGTH
           \<and> aes_256_gcm_decrypt pf (getEncryptionKey pf) iv authTag encrypted
               = Some (JSON_stringify pf d))
      \<and> JSON_parse pf (JSON_stringify pf d) = Some (Truthy d))"

section \<open>Dates (the \<open>Date\<close> object as services/license.js uses it)\<close>

text \<open>
  \<open>calculateExpiration\<close> reads and sets calendar fields of \<open>new Date()\<close>, in local time.
  The clock reading is therefore given by its local calendar fields, year, month (0 to
  11), day of the month and milliseconds since local midnight, together with the offset
  of local time from UTC in force at that instant, in milliseconds. The local time value
  is computed from the fields as ECMAScript's \<open>MakeDate(MakeDay(year, month, date), time)\<close>
  does; the time value, which \<open>getTime()\<close> returns and \<open>toISOString()\<close> prints, is the
  local time value less the offset.
\<close>

record js_date =
  getFullYear :: int
  getMonth :: int
  getDate :: int
  time_in_day :: int
  local_offset :: int

definition msPerDay :: int where "msPerDay = 86400000"

definition DaysInYear :: "int \<Rightarrow> int" where
  "DaysInYear y =
     (if y mod 4 \<noteq> 0 then 365
      else if y mod 100 \<noteq> 0 then 366
      else if y mod 400 \<noteq> 0 then 365
      else 366)"

definition DayFromYear :: "int \<Rightarrow> int" where
  "DayFromYear y =
     365 * (y - 1970) + (y - 1969) div 4 - (y - 1901) div 100 + (y - 1601) div 400"

definition DaysInMonth :: "int \<Rightarrow> int \<Rightarrow> int" where
  "DaysInMonth y m =
     (if m = 1 then DaysInYear y - 337
      else if m = 3 \<or> m = 5 \<or> m = 8 \<or> m = 10 then 30
      else 31)"

text \<open>The number of days of year \<open>y\<close> before the first day of its month \<open>m\<close>.\<close>

definition DaysBeforeMonth :: "int \<Rightarrow> int \<Rightarrow> int" where
  "DaysBeforeMonth y m = (\<Sum>k \<leftarrow> [0 ..< nat m]. DaysInMonth y (int k))"

definition MakeDay :: "int \<Rightarrow> int \<Rightarrow> int \<Rightarrow> int" where
  "MakeDay year month date =
     (let ym = year + month div 12; mn = month mod 12
      in DayFromYear ym + DaysBeforeMonth ym mn + date - 1)"

definition MakeDate :: "int \<Rightarrow> int \<Rightarrow> int" where
  "MakeDate day time = day * msPerDay + time"

text \<open>The local time value of the calendar fields (ECMAScript's \<open>LocalTime\<close> of the date).\<close>

definition localTime :: "js_date \<Rightarrow> int" where
  "localTime d = MakeDate (MakeDay (getFullYear d) (getMonth d) (getDate d)) (time_in_day d)"

definition getTime :: "js_date \<Rightarrow> int" where
  "getTime d = localTime d - local_offset d"

text \<open>
  ECMAScript's \<open>UTC(t)\<close>: the time value of the local time value \<open>t\<close>, with the offset
  that the zone has at that local time.
\<close>

definition UTC :: "platform \<Rightarrow> int \<Rightarrow> int" where
  "UTC pf t = t - LocalTZA pf t"

text \<open>
  The time value of the date after \<open>d.setMonth(m)\<close> and after \<open>d.setFullYear(y)\<close>: the
  field is replaced in local time, the other fields are kept, \<open>MakeDay\<close> carries a month
  outside 0 to 11 into the year and a day beyond the end of the month into the next
  month, and the result goes through \<open>UTC\<close>.
\<close>

definition setMonth :: "platform \<Rightarrow> js_date \<Rightarrow> int \<Rightarrow> int" where
  "setMonth pf d m = UTC pf (localTime (d\<lparr>getMonth := m\<rparr>))"

definition setFullYear :: "platform \<Rightarrow> js_date \<Rightarrow> int \<Rightarrow> int" where
  "setFullYear pf d y = UTC pf (localTime (d\<lparr>getFullYear := y\<rparr>))"

text \<open>The fields of a clock reading are those of a calendar date.\<close>

definition valid_date :: "js_date \<Rightarrow> bool" where
  "valid_date d =
     (0 \<le> getMonth d \<and> getMonth d < 12
      \<and> 1 \<le> getDate d \<and> getDate d \<le> DaysInMonth (getFullYear d) (getMonth d)
      \<and> 0 \<le> time_in_day d \<and> time_in_day d < msPerDay)"

section \<open>The license service (services/license.js)\<close>

text \<open>
  The time value that \<open>calculateExpiration(plan)\<close> turns into text, for the clock reading
  \<open>now\<close>; the \<open>switch\<close> has a \<open>default\<close> branch equal to \<open>'monthly'\<close>.
\<close>

definition expiration_time :: "platform \<Rightarrow> string \<Rightarrow> js_date \<Rightarrow> int" where
  "expiration_time pf p now =
     (if p = ''monthly'' then setMonth pf now (getMonth now + 1)
      else if p = ''annual'' then setFullYear pf now (getFullYear now + 1)
      else if p = ''lifetime'' then setFullYear pf now (getFullYear now + 100)
      else setMonth pf now (getMonth now + 1))"

definition calculateExpiration :: "platform \<Rightarrow> string \<Rightarrow> js_date \<Rightarrow> string" where
  "calculateExpiration pf p now = toISOString pf (expiration_time pf p now)"


subsection \<open>The database (database/db.js)\<close>

text \<open>
  The tables \<open>licenses\<close> and \<open>activation_logs\<close>, each a list of rows in insertion order, and
  the counters SQLite keeps for the two \<open>AUTOINCREMENT\<close> keys. A statement that violates a
  constraint of the schema throws; the model returns the error.
\<close>

record activation_log =
  log_id :: int
  license_id :: int
  machine_id :: string
  action :: string
  ip_address :: "string option"
  log_created_at :: string

record database =
  licenses :: "license list"
  activation_logs :: "activation_log list"
  licenses_seq :: int
  activation_logs_seq :: int

datatype sqlite_error = SQLITE_CONSTRAINT_UNIQUE | SQLITE_CONSTRAINT_FOREIGNKEY

text \<open>\<open>INTEGER PRIMARY KEY AUTOINCREMENT\<close>: one more than every key the table has or had.\<close>

definition next_rowid :: "int \<Rightarrow> int list \<Rightarrow> int" where
  "next_rowid seq ids = fold max ids seq + 1"

text \<open>\<^verbatim>\<open>db.prepare('SELECT * FROM licenses WHERE key = ?').get(key)\<close>\<close>

definition select_by_key :: "database \<Rightarrow> string \<Rightarrow> license option" where
  "select_by_key db k = find (\<lambda>l. key l = k) (licenses db)"

text \<open>
  \<^verbatim>\<open>INSERT INTO licenses (key, email, plan, max_machines, expires_at[, status])\<close>:
  \<open>key\<close> is \<open>UNIQUE\<close>; the columns left out take the defaults of the schema, \<open>'[]'\<close> for
  \<open>machines_used\<close>, \<open>'active'\<close> for \<open>status\<close> (\<open>st = None\<close>), the current time for
  \<open>created_at\<close>. The result is the new database and \<open>lastInsertRowid\<close>.
\<close>

definition insert_license ::
  "platform \<Rightarrow> int \<Rightarrow> database \<Rightarrow> string \<Rightarrow> string option \<Rightarrow> string \<Rightarrow> int \<Rightarrow> string
     \<Rightarrow> string option \<Rightarrow> sqlite_error + (database \<times> int)" where
  "insert_license pf now db k em p maxm expires st =
     (if k \<in> set (map key (licenses db)) then Inl SQLITE_CONSTRAINT_UNIQUE
      else
        (let i = next_rowid (licenses_seq db) (map row_id (licenses db));
             row = \<lparr> row_id = i, key = k, email = em, plan = p, max_machines = maxm,
                     machines_used = Some [],
                     status = (case st of None \<Rightarrow> ''active'' | Some x \<Rightarrow> x),
                     created_at = CURRENT_TIMESTAMP pf now, expires_at = expires,
                     last_validated = None \<rparr>
         in Inr (db\<lparr>licenses := licenses db @ [row], licenses_seq := i\<rparr>, i)))"

text \<open>\<^verbatim>\<open>UPDATE licenses SET ... WHERE id = ?\<close>, the assignment given as a function on rows.\<close>

definition update_license :: "database \<Rightarrow> int \<Rightarrow> (license \<Rightarrow> license) \<Rightarrow> database" where
  "update_license db i f =
     db\<lparr>licenses := map (\<lambda>l. if row_id l = i then f l else l) (licenses db)\<rparr>"

text \<open>
  \<open>logActivation\<close>: \<^verbatim>\<open>INSERT INTO activation_logs (license_id, machine_id, action, ip_address)\<close>;
  \<open>license_id\<close> references \<open>licenses(id)\<close> and foreign keys are enforced.
\<close>

definition logActivation ::
  "platform \<Rightarrow> int \<Rightarrow> database \<Rightarrow> int \<Rightarrow> string \<Rightarrow> string \<Rightarrow> string option
     \<Rightarrow> sqlite_error + database" where
  "logActivation pf now db licenseId machineId act ipAddress =
     (if licenseId \<notin> set (map row_id (licenses db)) then Inl SQLITE_CONSTRAINT_FOREIGNKEY
      else
        (let i = next_rowid (activation_logs_seq db) (map log_id (activation_logs db));
             row = \<lparr> log_id = i, license_id = licenseId, machine_id = machineId,
                     action = act, ip_address = ipAddress,
                     log_created_at = CURRENT_TIMESTAMP pf now \<rparr>
         in Inr (db\<lparr>activation_logs := activation_logs db @ [row],
                     activation_logs_seq := i\<rparr>)))"

subsection \<open>createLicense\<close>

text \<open>The argument of \<open>createLicense\<close>; a property that the caller left out is \<open>None\<close>.\<close>

record license_request =
  d_email :: "string option"
  d_plan :: string
  d_maxMachines :: "int option"

record created_license =
  c_id :: int
  c_key :: string
  c_email :: "string option"
  c_plan :: string
  c_maxMachines :: int
  c_expiresAt :: string

text \<open>\<open>data.email || null\<close> and \<open>data.maxMachines || 1\<close>: the empty string and 0 are falsy.\<close>

definition email_or_null :: "string option \<Rightarrow> string option" where
  "email_or_null e = (case e of None \<Rightarrow> None | Some x \<Rightarrow> if x = [] then None else Some x)"

definition maxMachines_or_1 :: "int option \<Rightarrow> int" where
  "maxMachines_or_1 m = (case m of None \<Rightarrow> 1 | Some n \<Rightarrow> if n = 0 then 1 else n)"

definition createLicense ::
  "platform \<Rightarrow> (nat \<Rightarrow> real) \<Rightarrow> js_date \<Rightarrow> database \<Rightarrow> license_request
     \<Rightarrow> sqlite_error + (created_license \<times> database)" where
  "createLicense pf rnd now db data =
     (let k = generateLicenseKey rnd;
          expiresAt = calculateExpiration pf (d_plan data) now
      in case insert_license pf (getTime now) db k (email_or_null (d_email data)) (d_plan data)
                (maxMachines_or_1 (d_maxMachines data)) expiresAt None of
           Inl e \<Rightarrow> Inl e
         | Inr (db', i) \<Rightarrow>
             Inr (\<lparr> c_id = i, c_key = k, c_email = d_email data, c_plan = d_plan data,
                     c_maxMachines = maxMachines_or_1 (d_maxMachines data),
                     c_expiresAt = expiresAt \<rparr>, db'))"

subsection \<open>validateLicense\<close>

text \<open>The result object: \<open>{valid: false, reason}\<close> or \<open>{valid: true, license, offlineToken}\<close>.\<close>

record license_view =
  v_key :: string
  v_plan :: string
  v_expiresAt :: string
  v_machinesUsed :: nat
  v_maxMachines :: int

datatype validation = Invalid string | Valid license_view string

text \<open>The properties \<open>valid\<close>, \<open>reason\<close> and \<open>license\<close> of the result object.\<close>

fun valid :: "validation \<Rightarrow> bool" where
  "valid (Invalid r) = False"
| "valid (Valid v t) = True"

fun reason :: "validation \<Rightarrow> string option" where
  "reason (Invalid r) = Some r"
| "reason (Valid v t) = None"

fun result_license :: "validation \<Rightarrow> license_view option" where
  "result_license (Invalid r) = None"
| "result_license (Valid v t) = Some v"

text \<open>
  The reason returned for a missing key without the prefix, in Portuguese ("invalid key
  (must start with RATO-)"); its two letters outside ASCII, a with acute accent and c with
  cedilla, are written by their code units U+00E1 and U+00E7.
\<close>

definition reason_invalid_key :: string where
  "reason_invalid_key =
     ''Chave inv'' @ [CHR 0xE1] @ ''lida (deve come'' @ [CHR 0xE7] @ ''ar com RATO-)''"

text \<open>
  \<^verbatim>\<open>try { machines = JSON.parse(license.machines_used || '[]'); } catch (e) { machines = []; }\<close>
\<close>

definition parse_machines :: "string list option \<Rightarrow> string list" where
  "parse_machines m = (case m of None \<Rightarrow> [] | Some xs \<Rightarrow> xs)"

text \<open>
  \<open>validateLicense(key, machineId)\<close> with the database before the call, the clock reading
  \<open>now\<close> (one reading for the whole call) and the bytes \<open>iv\<close> that \<open>crypto.randomBytes\<close>
  returns; the result is the returned object and the database after the call. The steps
  follow the source: look the key up and, when it is missing, insert a license for a key
  starting with \<open>RATO-\<close>; force the status to \<open>'active'\<close>; replace an expiry date in the
  past; add the machine when it is not yet listed; set \<open>last_validated\<close>; log the
  activation, ignoring a failure; build the token.
\<close>

definition validateLicense ::
  "platform \<Rightarrow> byte list \<Rightarrow> js_date \<Rightarrow> database \<Rightarrow> string \<Rightarrow> string
     \<Rightarrow> validation \<times> database" where
  "validateLicense pf iv now db k machineId =
     (case
        (case select_by_key db k of
           Some l \<Rightarrow> Inr (Some l, db)
         | None \<Rightarrow>
             if k \<noteq> [] \<and> startsWith k ''RATO-'' then
               (let expiresAt = calculateExpiration pf ''lifetime'' now in
                case insert_license pf (getTime now) db k (Some ''bypass@ratoengine.com'')
                       ''lifetime'' 999 expiresAt (Some ''active'') of
                  Inl e \<Rightarrow> Inl ''Database error during auto-activation''
                | Inr (db1, i) \<Rightarrow> Inr (select_by_key db1 k, db1))
             else Inl reason_invalid_key)
      of
        Inl r \<Rightarrow> (Invalid r, db)
      | Inr (None, db1) \<Rightarrow> (Invalid ''License key not found'', db1)
      | Inr (Some license0, db1) \<Rightarrow>
          (let (license1, db2) =
                 (if status license0 \<noteq> ''active''
                  then (license0\<lparr>status := ''active''\<rparr>,
                        update_license db1 (row_id license0) (\<lambda>l. l\<lparr>status := ''active''\<rparr>))
                  else (license0, db1));
               (license2, db3) =
                 (if date_before pf (Some (expires_at license1)) (getTime now)
                  then (let newExpiry = calculateExpiration pf ''lifetime'' now in
                        (license1\<lparr>expires_at := newExpiry\<rparr>,
                         update_license db2 (row_id license1)
                           (\<lambda>l. l\<lparr>expires_at := newExpiry, status := ''active''\<rparr>)))
                  else (license1, db2));
               machines0 = parse_machines (machines_used license2);
               (machines, db4) =
                 (if machineId \<notin> set machines0
                  then (machines0 @ [machineId],
                        update_license db3 (row_id license2)
                          (\<lambda>l. l\<lparr>machines_used := Some (machines0 @ [machineId])\<rparr>))
                  else (machines0, db3));
               db5 = update_license db4 (row_id license2)
                       (\<lambda>l. l\<lparr>last_validated := Some (toISOString pf (getTime now))\<rparr>);
               db6 = (case logActivation pf (getTime now) db5 (row_id license2) machineId
                             ''validate'' None of
                        Inl e \<Rightarrow> db5
                      | Inr d \<Rightarrow> d);
               offlineToken = createOfflineToken pf iv (getTime now) license2 machineId
           in (Valid \<lparr> v_key = key license2, v_plan = plan license2,
                        v_expiresAt = expires_at license2,
                        v_machinesUsed = length machines,
                        v_maxMachines = max_machines license2 \<rparr> offlineToken,
               db6)))"

subsection \<open>revokeLicense and resetMachines\<close>

text \<open>\<^verbatim>\<open>UPDATE licenses SET status = 'revoked' WHERE id = ?\<close>\<close>

definition revokeLicense :: "database \<Rightarrow> int \<Rightarrow> database" where
  "revokeLicense db i = update_license db i (\<lambda>l. l\<lparr>status := ''revoked''\<rparr>)"

text \<open>\<^verbatim>\<open>UPDATE licenses SET machines_used = '[]' WHERE id = ?\<close>\<close>

definition resetMachines :: "database \<Rightarrow> int \<Rightarrow> database" where
  "resetMachines db i = update_license db i (\<lambda>l. l\<lparr>machines_used := Some []\<rparr>)"


section \<open>The stored license after a validation\<close>

text \<open>
  The row that \<open>validateLicense\<close> leaves in the table for a license \<open>l\<close> it found: the
  status is \<open>'active'\<close>, an expiry date in the past is replaced, the machine is appended
  unless it is listed, \<open>last_validated\<close> is set. The lemmas below prove that this is what
  the updates of \<open>validateLicense\<close> amount to.
\<close>

definition stored_after_validate :: "platform \<Rightarrow> js_date \<Rightarrow> string \<Rightarrow> license \<Rightarrow> license" where
  "stored_after_validate pf now m l =
     l\<lparr> status := ''active'',
        expires_at := (if date_before pf (Some (expires_at l)) (getTime now)
                       then calculateExpiration pf ''lifetime'' now else expires_at l),
        machines_used := (if m \<in> set (parse_machines (machines_used l)) then machines_used l
                          else Some (parse_machines (machines_used l) @ [m])),
        last_validated := Some (toISOString pf (getTime now)) \<rparr>"

text \<open>The row that \<open>validateLicense\<close> inserts for a missing key with the prefix \<open>RATO-\<close>.\<close>

definition auto_created :: "platform \<Rightarrow> js_date \<Rightarrow> database \<Rightarrow> string \<Rightarrow> license" where
  "auto_created pf now db k =
     \<lparr> row_id = next_rowid (licenses_seq db) (map row_id (licenses db)), key = k,
       email = Some ''bypass@ratoengine.com'', plan = ''lifetime'', max_machines = 999,
       machines_used = Some [], status = ''active'',
       created_at = CURRENT_TIMESTAMP pf (getTime now),
       expires_at = calculateExpiration pf ''lifetime'' now, last_validated = None \<rparr>"

section \<open>Example data\<close>

text \<open>
  A small stand-in for the platform, used to evaluate the model on concrete inputs: dates
  are written as decimal time values, the zone is UTC, the cipher copies the bytes of the
  plaintext and derives the tag from their number, the JSON codec joins the six properties
  with a bar.
  The general theorems hold for every platform; only the evaluations on concrete inputs
  use this one.
\<close>

fun decimal :: "nat \<Rightarrow> string" where
  "decimal n =
     (if n < 10 then [''0123456789'' ! n]
      else decimal (n div 10) @ [''0123456789'' ! (n mod 10)])"

declare decimal.simps [simp del]

fun parse_decimal :: "nat \<Rightarrow> string \<Rightarrow> nat option" where
  "parse_decimal acc [] = Some acc"
| "parse_decimal acc (c # cs) =
     (let n = (of_char c :: nat) in
      if 48 \<le> n \<and> n \<le> 57 then parse_decimal (10 * acc + (n - 48)) cs else None)"

fun split_on :: "char \<Rightarrow> string \<Rightarrow> string list" where
  "split_on c [] = [[]]"
| "split_on c (x # xs) =
     (if x = c then [] # split_on c xs
      else (case split_on c xs of p # ps \<Rightarrow> (x # p) # ps | [] \<Rightarrow> [[x]]))"

definition toy_show_field :: "string option \<Rightarrow> string" where
  "toy_show_field f = (case f of None \<Rightarrow> ''u'' | Some x \<Rightarrow> CHR ''s'' # x)"

definition toy_read_field :: "string \<Rightarrow> string option option" where
  "toy_read_field x =
     (case x of
        [] \<Rightarrow> None
      | c # r \<Rightarrow> if c = CHR ''s'' then Some (Some r)
                else if c = CHR ''u'' \<and> r = [] then Some None else None)"

definition toy_stringify :: "token_data \<Rightarrow> string" where
  "toy_stringify d =
     toy_show_field (t_key d) @ ''|'' @ toy_show_field (t_machineId d) @ ''|''
     @ toy_show_field (t_expiresAt d) @ ''|'' @ toy_show_field (t_plan d) @ ''|''
     @ toy_show_field (t_createdAt d) @ ''|'' @ toy_show_field (t_validationSignature d)"

definition toy_parse :: "string \<Rightarrow> parsed option" where
  "toy_parse x =
     (if x = ''null'' then Some Falsy
      else case map toy_read_field (split_on CHR ''|'' x) of
             [Some a, Some b, Some c, Some d, Some e, Some f] \<Rightarrow>
               Some (Truthy \<lparr> t_key = a, t_machineId = b, t_expiresAt = c, t_plan = d,
                               t_createdAt = e, t_validationSignature = f \<rparr>)
           | _ \<Rightarrow> None)"

definition toy_platform :: platform where
  "toy_platform =
     \<lparr> toISOString = (\<lambda>t. CHR ''@'' # decimal (nat t)),
       parseDate =
         (\<lambda>x. case x of
                 [] \<Rightarrow> None
               | c # r \<Rightarrow> if c = CHR ''@'' \<and> r \<noteq> [] then map_option int (parse_decimal 0 r)
                         else None),
       LocalTZA = (\<lambda>t. 0),
       CURRENT_TIMESTAMP = (\<lambda>t. CHR ''#'' # decimal (nat t)),
       scryptSync = (\<lambda>password salt n. replicate n 0),
       aes_256_gcm_encrypt =
         (\<lambda>k iv p. (map (\<lambda>c. of_nat (of_char c)) p, replicate 16 (of_nat (length p)))),
       aes_256_gcm_decrypt =
         (\<lambda>k iv tag ct.
            if length iv = 16 \<and> tag = replicate 16 (of_nat (length ct))
            then Some (map (\<lambda>b. char_of (unat b)) ct) else None),
       hmac_sha256_hex = (\<lambda>secret msg. toHex (map (\<lambda>c. of_nat (of_char c)) (take 4 (rev msg)))),
       JSON_stringify = toy_stringify,
       JSON_parse = toy_parse \<rparr>"

text \<open>15 January 2024, 10 February 2023 and 31 January 2023, at midnight, in UTC.\<close>

definition jan_15_2024 :: js_date where
  "jan_15_2024 = \<lparr> getFullYear = 2024, getMonth = 0, getDate = 15, time_in_day = 0,
                   local_offset = 0 \<rparr>"

definition feb_10_2023 :: js_date where
  "feb_10_2023 = \<lparr> getFullYear = 2023, getMonth = 1, getDate = 10, time_in_day = 0,
                   local_offset = 0 \<rparr>"

definition jan_31_2023 :: js_date where
  "jan_31_2023 = \<lparr> getFullYear = 2023, getMonth = 0, getDate = 31, time_in_day = 0,
                   local_offset = 0 \<rparr>"

text \<open>
  New York in 2023: five hours behind UTC, and four hours behind from 2 o'clock local time
  on 12 March to 2 o'clock on 5 November. The argument of \<open>LocalTZA\<close> is a local time in
  milliseconds. Noon of 12 February 2023 there is five hours behind UTC.
\<close>

definition new_york :: platform where
  "new_york =
     toy_platform\<lparr> LocalTZA :=
       (\<lambda>t. if 1678586400000 \<le> t \<and> t < 1699149600000 then - 14400000 else - 18000000) \<rparr>"

definition feb_12_2023_noon :: js_date where
  "feb_12_2023_noon = \<lparr> getFullYear = 2023, getMonth = 1, getDate = 12,
                        time_in_day = 43200000, local_offset = - 18000000 \<rparr>"

text \<open>
  A license for one machine, bound to machine \<open>A\<close>, expiring on 1 January 2099, and a
  database holding it.
\<close>

definition license_K :: license where
  "license_K =
     \<lparr> row_id = 1, key = ''RATO-AAAA-BBBB-CCCC-DDDD'', email = None, plan = ''annual'',
       max_machines = 1, machines_used = Some [''A''], status = ''active'',
       created_at = ''#1700000000000'', expires_at = ''@4070908800000'',
       last_validated = None \<rparr>"

definition db_K :: database where
  "db_K = \<lparr> licenses = [license_K], activation_logs = [], licenses_seq = 1,
            activation_logs_seq = 0 \<rparr>"

definition db_empty :: database where
  "db_empty = \<lparr> licenses = [], activation_logs = [], licenses_seq = 0,
                activation_logs_seq = 0 \<rparr>"

definition iv_zero :: "byte list" where
  "iv_zero = replicate 16 0"


section \<open>The acc generator produces keys of the specified format\<close>

lemma chars_all: "\<forall>c \<in> set chars. in_A_Z_0_9 c"
  by (simp add: chars_def in_A_Z_0_9_def)

lemma length_chars: "length chars = 36"
  by (simp add: chars_def)

lemma draw_char:
  assumes "0 \<le> r" "r < 1"
  shows "\<exists>c. charAt chars (nat \<lfloor>r * real (length chars)\<rfloor>) = [c] \<and> in_A_Z_0_9 c"
proof -
  have "r * 36 < 36" using assms by simp
  then have "\<lfloor>r * 36\<rfloor> < 36" by linarith
  moreover have "0 \<le> \<lfloor>r * 36\<rfloor>" using assms by simp
  ultimately have "nat \<lfloor>r * 36\<rfloor> < 36" by linarith
  then have lt: "nat \<lfloor>r * 36\<rfloor> < length chars" by (simp only: length_chars)
  then have "chars ! nat \<lfloor>r * 36\<rfloor> \<in> set chars" by (rule nth_mem)
  with chars_all have "in_A_Z_0_9 (chars ! nat \<lfloor>r * 36\<rfloor>)" by blast
  with lt show ?thesis by (simp add: charAt_def length_chars)
qed

lemma inner_loop_appends:
  "(\<forall>k. 0 \<le> rnd k \<and> rnd k < 1) \<Longrightarrow> j \<le> 4 \<Longrightarrow>
   \<exists>cs. inner_loop rnd j k acc = (acc @ cs, k + (4 - j))
           \<and> length cs = 4 - j \<and> (\<forall>c \<in> set cs. in_A_Z_0_9 c)"
proof (induction rnd j k acc rule: inner_loop.induct)
  case (1 rnd j k acc)
  note unit = "1.prems"(1)
  show ?case
  proof (cases "j < 4")
    case False
    with "1.prems"(2) show ?thesis by (subst inner_loop.simps) simp
  next
    case True
    from unit have "0 \<le> rnd k" "rnd k < 1" by simp_all
    from draw_char [OF this]
    obtain c where c: "charAt chars (nat \<lfloor>rnd k * real (length chars)\<rfloor>) = [c]" "in_A_Z_0_9 c"
      by (elim exE conjE)
    have le: "j + 1 \<le> 4" using True by simp
    from "1.IH" [OF True unit le] obtain cs where
      cs: "inner_loop rnd (j + 1) (k + 1) (acc @ [c]) = ((acc @ [c]) @ cs, k + 1 + (4 - (j + 1)))"
        "length cs = 4 - (j + 1)" "\<forall>x \<in> set cs. in_A_Z_0_9 x"
      unfolding c(1) by (elim exE conjE)
    have "inner_loop rnd j k acc = (acc @ (c # cs), k + (4 - j))"
      using True cs(1) c(1) by (subst inner_loop.simps) simp
    moreover have "length (c # cs) = 4 - j" using True cs(2) by simp
    moreover have "\<forall>x \<in> set (c # cs). in_A_Z_0_9 x" using c(2) cs(3) by simp
    ultimately show ?thesis by (intro exI conjI)
  qed
qed

lemma list_of_length_4:
  assumes "length cs = 4"
  shows "\<exists>c1 c2 c3 c4. cs = [c1, c2, c3, c4]"
proof -
  from assms obtain c1 r1 where r1: "cs = c1 # r1" "length r1 = 3" by (cases cs) auto
  from r1(2) obtain c2 r2 where r2: "r1 = c2 # r2" "length r2 = 2" by (cases r1) auto
  from r2(2) obtain c3 r3 where r3: "r2 = c3 # r3" "length r3 = 1" by (cases r2) auto
  from r3(2) obtain c4 where r4: "r3 = [c4]" by (cases r3) auto
  show ?thesis unfolding r1(1) r2(1) r3(1) r4 by (intro exI) (rule refl)
qed

lemma inner_loop_group:
  assumes "\<forall>k. 0 \<le> rnd k \<and> rnd k < 1"
  shows "\<exists>c1 c2 c3 c4. inner_loop rnd 0 k acc = (acc @ [c1, c2, c3, c4], k + 4)
           \<and> in_A_Z_0_9 c1 \<and> in_A_Z_0_9 c2 \<and> in_A_Z_0_9 c3 \<and> in_A_Z_0_9 c4"
proof -
  have "\<exists>cs. inner_loop rnd 0 k acc = (acc @ cs, k + (4 - 0))
           \<and> length cs = 4 - 0 \<and> (\<forall>c \<in> set cs. in_A_Z_0_9 c)"
    by (rule inner_loop_appends [OF assms]) simp
  then obtain cs where il: "inner_loop rnd 0 k acc = (acc @ cs, k + 4)"
    and len: "length cs = 4" and cls: "\<forall>c \<in> set cs. in_A_Z_0_9 c"
    by auto
  from list_of_length_4 [OF len] obtain c1 c2 c3 c4 where cs: "cs = [c1, c2, c3, c4]"
    by (elim exE)
  from cls have "in_A_Z_0_9 c1 \<and> in_A_Z_0_9 c2 \<and> in_A_Z_0_9 c3 \<and> in_A_Z_0_9 c4"
    unfolding cs by simp
  with il show ?thesis unfolding cs by simp
qed

lemma outer_loop_groups:
  "(\<forall>k. 0 \<le> rnd k \<and> rnd k < 1) \<Longrightarrow> i \<le> 4 \<Longrightarrow>
   \<exists>g. fst (outer_loop rnd i k acc) = acc @ g \<and> dash_groups (4 - i) g"
proof (induction rnd i k acc rule: outer_loop.induct)
  case (1 rnd i k acc)
  note unit = "1.prems"(1)
  show ?case
  proof (cases "i < 4")
    case False
    then show ?thesis using "1.prems"(2) by (subst outer_loop.simps) simp
  next
    case True
    define acc1 where "acc1 = acc @ ''-''"
    from inner_loop_group [OF unit, of k acc1] obtain c1 c2 c3 c4 where
      il: "inner_loop rnd 0 k acc1 = (acc1 @ [c1, c2, c3, c4], k + 4)"
      and cls: "in_A_Z_0_9 c1" "in_A_Z_0_9 c2" "in_A_Z_0_9 c3" "in_A_Z_0_9 c4"
      by (elim exE conjE)
    have le: "i + 1 \<le> 4" using True by simp
    have il': "(acc1 @ [c1, c2, c3, c4], k + 4) = inner_loop rnd 0 k (acc @ ''-'')"
      using il by (simp only: acc1_def)
    from "1.IH" [OF True il' unit le]
    obtain g where g: "fst (outer_loop rnd (i + 1) (k + 4) (acc1 @ [c1, c2, c3, c4]))
         = (acc1 @ [c1, c2, c3, c4]) @ g"
      "dash_groups (4 - (i + 1)) g" by (elim exE conjE)
    have "fst (outer_loop rnd i k acc) = acc @ (CHR ''-'' # c1 # c2 # c3 # c4 # g)"
      using True il g(1) unfolding acc1_def by (subst outer_loop.simps) simp
    moreover have "dash_groups (4 - i) (CHR ''-'' # c1 # c2 # c3 # c4 # g)"
    proof -
      from True have "4 - i = Suc (4 - (i + 1))" by simp
      then show ?thesis using cls g(2) by simp
    qed
    ultimately show ?thesis by (intro exI conjI)
  qed
qed

text \<open>
  Claim C7. Every string returned by \<open>generateLicenseKey\<close> matches the pattern
  \<^verbatim>\<open>^RATO(-[A-Z0-9]{4}){4}$\<close>: the prefix \<open>RATO\<close> and four groups of a dash and four
  characters from \<open>A\<close> to \<open>Z\<close> or \<open>0\<close> to \<open>9\<close>, whatever values in \<open>[0, 1)\<close> the calls of
  \<open>Math.random()\<close> return.
\<close>

theorem generateLicenseKey_format:
  assumes "\<forall>k. 0 \<le> rnd k \<and> rnd k < 1"
  shows "matches_key_pattern (generateLicenseKey rnd)"
proof -
  have "\<exists>g. fst (outer_loop rnd 0 0 ''RATO'') = ''RATO'' @ g \<and> dash_groups (4 - 0) g"
    by (rule outer_loop_groups [OF assms]) simp
  then obtain g where g: "fst (outer_loop rnd 0 0 ''RATO'') = ''RATO'' @ g" "dash_groups 4 g"
    by auto
  then show ?thesis
    by (simp add: matches_key_pattern_def generateLicenseKey_def)
qed

text \<open>With every call of \<open>Math.random()\<close> returning one half.\<close>

theorem generateLicenseKey_format_witness:
  "(\<forall>k. 0 \<le> (\<lambda>k. 1 / 2 :: real) k \<and> (\<lambda>k. 1 / 2 :: real) k < 1)
   \<and> matches_key_pattern (generateLicenseKey (\<lambda>k. 1 / 2))"
  using generateLicenseKey_format [of "\<lambda>k. 1 / 2"] by simp

section \<open>Lemmas on the database and on validateLicense\<close>

lemma parse_machines_Some [simp]: "parse_machines (Some xs) = xs"
  by (simp add: parse_machines_def)

lemma find_map_key:
  assumes "\<And>x. key (g x) = key x"
  shows "find (\<lambda>l. key l = k) (map g xs) = map_option g (find (\<lambda>l. key l = k) xs)"
  by (induction xs) (simp_all add: assms)

lemma select_by_key_update:
  assumes "\<And>x. key (f x) = key x"
  shows "select_by_key (update_license db i f) k
         = map_option (\<lambda>l. if row_id l = i then f l else l) (select_by_key db k)"
  unfolding select_by_key_def update_license_def
  by (simp add: find_map_key assms)

lemma licenses_after_log:
  "licenses (case logActivation pf t db i m a ip of Inl e \<Rightarrow> db | Inr d \<Rightarrow> d) = licenses db"
  by (simp add: logActivation_def Let_def)

lemma select_by_key_after_log:
  "licenses db' = licenses db \<Longrightarrow>
   select_by_key (case logActivation pf t db i m a ip of Inl e \<Rightarrow> db' | Inr d \<Rightarrow> d) k
   = select_by_key db k"
  by (simp add: select_by_key_def logActivation_def Let_def)

lemma validate_found_snd:
  assumes "select_by_key db k = Some l"
  shows "select_by_key (snd (validateLicense pf iv now db k m)) k
         = Some (stored_after_validate pf now m l)"
proof (cases "status l = ''active''")
  case active: True
  show ?thesis
  proof (cases "date_before pf (Some (expires_at l)) (getTime now)")
    case True
    with active show ?thesis
      unfolding validateLicense_def stored_after_validate_def
      by (cases "m \<in> set (parse_machines (machines_used l))")
         (simp_all add: assms Let_def select_by_key_after_log select_by_key_update)
  next
    case False
    with active show ?thesis
      unfolding validateLicense_def stored_after_validate_def
      by (cases "m \<in> set (parse_machines (machines_used l))")
         (simp_all add: assms Let_def select_by_key_after_log select_by_key_update)
  qed
next
  case inactive: False
  show ?thesis
  proof (cases "date_before pf (Some (expires_at l)) (getTime now)")
    case True
    with inactive show ?thesis
      unfolding validateLicense_def stored_after_validate_def
      by (cases "m \<in> set (parse_machines (machines_used l))")
         (simp_all add: assms Let_def select_by_key_after_log select_by_key_update)
  next
    case False
    with inactive show ?thesis
      unfolding validateLicense_def stored_after_validate_def
      by (cases "m \<in> set (parse_machines (machines_used l))")
         (simp_all add: assms Let_def select_by_key_after_log select_by_key_update)
  qed
qed

lemma validate_found_fst:
  assumes "select_by_key db k = Some l"
  shows "valid (fst (validateLicense pf iv now db k m))
       \<and> result_license (fst (validateLicense pf iv now db k m)) =
           Some \<lparr> v_key = key l, v_plan = plan l,
                   v_expiresAt = expires_at (stored_after_validate pf now m l),
                   v_machinesUsed =
                     length (parse_machines (machines_used (stored_after_validate pf now m l))),
                   v_maxMachines = max_machines l \<rparr>"
  unfolding validateLicense_def stored_after_validate_def
  by (cases "m \<in> set (parse_machines (machines_used l))")
     (simp_all add: assms Let_def)

lemma select_by_key_None:
  "select_by_key db k = None \<longleftrightarrow> k \<notin> set (map key (licenses db))"
  unfolding select_by_key_def by (auto simp: find_None_iff)

lemma find_append_new:
  assumes "find P xs = None" "P x"
  shows "find P (xs @ [x]) = Some x"
  using assms by (induction xs) (auto split: if_splits)

lemma startsWith_nonempty: "startsWith k ''RATO-'' \<Longrightarrow> k \<noteq> []"
  by (auto simp: startsWith_def)

lemma validate_missing:
  assumes "select_by_key db k = None" "startsWith k ''RATO-''"
  shows "validateLicense pf iv now db k m =
         validateLicense pf iv now
           (db\<lparr>licenses := licenses db @ [auto_created pf now db k],
               licenses_seq := row_id (auto_created pf now db k)\<rparr>) k m"
proof -
  let ?row = "auto_created pf now db k"
  let ?db1 = "db\<lparr>licenses := licenses db @ [?row], licenses_seq := row_id ?row\<rparr>"
  have notin: "k \<notin> set (map key (licenses db))"
    using assms(1) by (simp add: select_by_key_None)
  have ins: "insert_license pf (getTime now) db k (Some ''bypass@ratoengine.com'') ''lifetime'' 999
               (calculateExpiration pf ''lifetime'' now) (Some ''active'')
             = Inr (?db1, row_id ?row)"
    using notin unfolding insert_license_def auto_created_def by (simp add: Let_def)
  have "find (\<lambda>l. key l = k) (licenses db @ [?row]) = Some ?row"
    by (rule find_append_new) (use assms(1) in \<open>simp_all add: select_by_key_def auto_created_def\<close>)
  then have sel: "select_by_key ?db1 k = Some ?row"
    by (simp add: select_by_key_def)
  have ne: "k \<noteq> []" using assms(2) by (rule startsWith_nonempty)
  show ?thesis
    unfolding validateLicense_def
    by (simp only: assms ins sel ne option.case sum.case prod.case if_True simp_thms
          not_False_eq_True Let_def)
qed

section \<open>resetMachines\<close>

text \<open>
  Claim C10. \<open>resetMachines(id)\<close> keeps the number and order of the rows. For the row at any
  position \<open>n\<close>: when its id is \<open>id\<close>, its \<open>machines_used\<close> becomes the empty array and every
  other field keeps its value, in particular \<open>status\<close> and \<open>expires_at\<close>; when its id is
  another one, the row is unchanged. The activation log and the key counters are
  unchanged too.
\<close>

theorem resetMachines_frame:
  assumes "n < length (licenses db)"
  shows "length (licenses (resetMachines db i)) = length (licenses db)
       \<and> (row_id (licenses db ! n) = i \<longrightarrow>
            parse_machines (machines_used (licenses (resetMachines db i) ! n)) = []
          \<and> licenses (resetMachines db i) ! n = (licenses db ! n)\<lparr>machines_used := Some []\<rparr>
          \<and> status (licenses (resetMachines db i) ! n) = status (licenses db ! n)
          \<and> expires_at (licenses (resetMachines db i) ! n) = expires_at (licenses db ! n))
       \<and> (row_id (licenses db ! n) \<noteq> i \<longrightarrow>
            licenses (resetMachines db i) ! n = licenses db ! n)
       \<and> activation_logs (resetMachines db i) = activation_logs db
       \<and> licenses_seq (resetMachines db i) = licenses_seq db
       \<and> activation_logs_seq (resetMachines db i) = activation_logs_seq db"
  using assms by (simp add: resetMachines_def update_license_def)

text \<open>On the database holding the license of machine \<open>A\<close>, whose id is 1.\<close>

theorem resetMachines_frame_witness:
  "0 < length (licenses db_K)
   \<and> row_id (licenses db_K ! 0) = 1
   \<and> machines_used (licenses db_K ! 0) = Some [''A'']
   \<and> parse_machines (machines_used (licenses (resetMachines db_K 1) ! 0)) = []
   \<and> status (licenses (resetMachines db_K 1) ! 0) = ''active''
   \<and> expires_at (licenses (resetMachines db_K 1) ! 0) = ''@4070908800000''"
  using resetMachines_frame [of 0 db_K 1]
  by (simp add: db_K_def license_K_def)


section \<open>More lemmas on validateLicense\<close>

lemma validate_bad_prefix:
  assumes "select_by_key db k = None" "\<not> startsWith k ''RATO-''"
  shows "validateLicense pf iv now db k m = (Invalid reason_invalid_key, db)"
  unfolding validateLicense_def by (simp add: assms)

lemma select_auto_created:
  assumes "select_by_key db k = None"
  shows "select_by_key (db\<lparr>licenses := licenses db @ [auto_created pf now db k],
               licenses_seq := row_id (auto_created pf now db k)\<rparr>) k
         = Some (auto_created pf now db k)"
proof -
  have "find (\<lambda>l. key l = k) (licenses db @ [auto_created pf now db k])
        = Some (auto_created pf now db k)"
    by (rule find_append_new) (use assms in \<open>simp_all add: select_by_key_def auto_created_def\<close>)
  then show ?thesis by (simp add: select_by_key_def)
qed

text \<open>
  A key with the prefix is always accepted, and the license found or created for it ends
  as \<open>stored_after_validate\<close> describes.
\<close>

lemma validate_rato:
  assumes "startsWith k ''RATO-''"
  shows "\<exists>l. (select_by_key db k = Some l \<or> (select_by_key db k = None \<and> l = auto_created pf now db k))
           \<and> valid (fst (validateLicense pf iv now db k m))
           \<and> select_by_key (snd (validateLicense pf iv now db k m)) k
               = Some (stored_after_validate pf now m l)"
proof (cases "select_by_key db k")
  case (Some l)
  have "valid (fst (validateLicense pf iv now db k m))"
    using validate_found_fst [OF Some, of pf iv now m] by (rule conjunct1)
  moreover note validate_found_snd [OF Some, of pf iv now m]
  ultimately show ?thesis using Some by (intro exI [of _ l]) simp
next
  case None
  let ?db1 = "db\<lparr>licenses := licenses db @ [auto_created pf now db k],
               licenses_seq := row_id (auto_created pf now db k)\<rparr>"
  have eq: "validateLicense pf iv now db k m = validateLicense pf iv now ?db1 k m"
    by (rule validate_missing [OF None assms])
  have sel: "select_by_key ?db1 k = Some (auto_created pf now db k)"
    by (rule select_auto_created [OF None])
  have "valid (fst (validateLicense pf iv now ?db1 k m))"
    using validate_found_fst [OF sel, of pf iv now m] by (rule conjunct1)
  moreover note validate_found_snd [OF sel, of pf iv now m]
  ultimately show ?thesis using None unfolding eq
    by (intro exI [of _ "auto_created pf now db k"]) simp
qed

text \<open>The definitions that evaluate the model on the example data.\<close>

lemma toy_LocalTZA [simp]: "LocalTZA toy_platform t = 0"
  by (simp add: toy_platform_def)

lemmas toy_eval =
  validateLicense_def select_by_key_def insert_license_def update_license_def
  logActivation_def next_rowid_def calculateExpiration_def expiration_time_def
  setFullYear_def setMonth_def getTime_def localTime_def UTC_def MakeDate_def MakeDay_def
  DayFromYear_def DaysBeforeMonth_def DaysInMonth_def DaysInYear_def msPerDay_def date_before_def
  parse_machines_def startsWith_def createOfflineToken_def token_fields_def
  encryptLicenseData_def getEncryptionKey_def licenseSecret_def toy_platform_def
  toy_stringify_def toy_show_field_def toHex_def hex_digit_def decimal.simps
  db_K_def db_empty_def license_K_def jan_15_2024_def iv_zero_def revokeLicense_def
  Let_def

section \<open>The machine limit\<close>

text \<open>
  Claim C1, as the code behaves. For a license with \<open>max_machines = 1\<close> whose
  \<open>machines_used\<close> contains a machine \<open>a\<close>, \<open>validateLicense(key, b)\<close> with a machine \<open>b\<close>
  that is not listed returns \<open>valid: true\<close> without a reason, reports one machine more than
  before with \<open>maxMachines\<close> 1, and appends \<open>b\<close> to the stored \<open>machines_used\<close>: the limit is
  not enforced (the source marks this as a bypass).
\<close>

theorem validate_ignores_machine_limit:
  assumes "select_by_key db k = Some l" and "max_machines l = 1"
    and "a \<in> set (parse_machines (machines_used l))"
    and "b \<notin> set (parse_machines (machines_used l))"
  shows "valid (fst (validateLicense pf iv now db k b))
       \<and> reason (fst (validateLicense pf iv now db k b)) = None
       \<and> (\<exists>v. result_license (fst (validateLicense pf iv now db k b)) = Some v
              \<and> v_maxMachines v = 1
              \<and> v_machinesUsed v = length (parse_machines (machines_used l)) + 1)
       \<and> (\<exists>l'. select_by_key (snd (validateLicense pf iv now db k b)) k = Some l'
              \<and> parse_machines (machines_used l') = parse_machines (machines_used l) @ [b])"
proof -
  let ?r = "validateLicense pf iv now db k b"
  from validate_found_fst [OF assms(1), of pf iv now b]
  have v: "valid (fst ?r)" and rl: "result_license (fst ?r) =
           Some \<lparr> v_key = key l, v_plan = plan l,
                   v_expiresAt = expires_at (stored_after_validate pf now b l),
                   v_machinesUsed =
                     length (parse_machines (machines_used (stored_after_validate pf now b l))),
                   v_maxMachines = max_machines l \<rparr>"
    by simp_all
  have st: "parse_machines (machines_used (stored_after_validate pf now b l))
            = parse_machines (machines_used l) @ [b]"
    using assms(4) by (simp add: stored_after_validate_def)
  have "reason (fst ?r) = None" using v by (cases "fst ?r") simp_all
  moreover have "\<exists>v. result_license (fst ?r) = Some v \<and> v_maxMachines v = 1
              \<and> v_machinesUsed v = length (parse_machines (machines_used l)) + 1"
    unfolding rl using assms(2) st by simp
  moreover have "\<exists>l'. select_by_key (snd ?r) k = Some l'
              \<and> parse_machines (machines_used l') = parse_machines (machines_used l) @ [b]"
    unfolding validate_found_snd [OF assms(1)] using st by simp
  ultimately show ?thesis using v by simp
qed

text \<open>On the license of the example, bound to machine \<open>A\<close>, validated from machine \<open>B\<close>.\<close>

theorem validate_ignores_machine_limit_witness:
  "select_by_key db_K ''RATO-AAAA-BBBB-CCCC-DDDD'' = Some license_K
   \<and> max_machines license_K = 1
   \<and> ''A'' \<in> set (parse_machines (machines_used license_K))
   \<and> ''B'' \<notin> set (parse_machines (machines_used license_K))
   \<and> valid (fst (validateLicense toy_platform iv_zero jan_15_2024 db_K ''RATO-AAAA-BBBB-CCCC-DDDD'' ''B''))
   \<and> (\<exists>l'. select_by_key (snd (validateLicense toy_platform iv_zero jan_15_2024 db_K
                                  ''RATO-AAAA-BBBB-CCCC-DDDD'' ''B'')) ''RATO-AAAA-BBBB-CCCC-DDDD'' = Some l'
          \<and> parse_machines (machines_used l') = [''A'', ''B''])"
proof -
  have h1: "select_by_key db_K ''RATO-AAAA-BBBB-CCCC-DDDD'' = Some license_K"
    by (simp add: select_by_key_def db_K_def license_K_def)
  have h2: "max_machines license_K = 1" by (simp add: license_K_def)
  have h3: "''A'' \<in> set (parse_machines (machines_used license_K))"
    by (simp add: license_K_def)
  have h4: "''B'' \<notin> set (parse_machines (machines_used license_K))"
    by (simp add: license_K_def)
  have ms: "parse_machines (machines_used license_K) = [''A'']" by (simp add: license_K_def)
  from validate_ignores_machine_limit [OF h1 h2 h3 h4, where pf = toy_platform
         and iv = iv_zero and now = jan_15_2024]
  show ?thesis using h1 h2 h3 h4 by (simp add: ms)
qed

text \<open>
  Claim C1 as stated fails: with \<open>max_machines = 1\<close> and machine \<open>A\<close> bound, the call for
  machine \<open>B\<close> is valid, has no reason, and the stored array becomes \<open>[A, B]\<close>.
\<close>

theorem machine_limit_counterexample:
  "select_by_key db_K ''RATO-AAAA-BBBB-CCCC-DDDD'' = Some license_K
   \<and> max_machines license_K = 1
   \<and> machines_used license_K = Some [''A'']
   \<and> valid (fst (validateLicense toy_platform iv_zero jan_15_2024 db_K ''RATO-AAAA-BBBB-CCCC-DDDD'' ''B''))
   \<and> reason (fst (validateLicense toy_platform iv_zero jan_15_2024 db_K ''RATO-AAAA-BBBB-CCCC-DDDD'' ''B''))
       \<noteq> Some ''machine limit exceeded''
   \<and> map machines_used
         (licenses (snd (validateLicense toy_platform iv_zero jan_15_2024 db_K ''RATO-AAAA-BBBB-CCCC-DDDD'' ''B'')))
       = [Some [''A'', ''B'']]"
  by (simp add: toy_eval)

section \<open>Revocation\<close>

text \<open>
  Claim C2, as the code behaves. After \<open>revokeLicense(id)\<close> the stored status of the license
  is \<open>'revoked'\<close>; the next \<open>validateLicense\<close> for its key returns \<open>valid: true\<close> and sets
  the stored status back to \<open>'active'\<close>: revocation is not terminal (the source forces the
  status to active before any check).
\<close>

theorem validate_reactivates_revoked:
  assumes "select_by_key db k = Some l"
  shows "(\<exists>l1. select_by_key (revokeLicense db (row_id l)) k = Some l1 \<and> status l1 = ''revoked'')
       \<and> valid (fst (validateLicense pf iv now (revokeLicense db (row_id l)) k m))
       \<and> (\<exists>l2. select_by_key
                   (snd (validateLicense pf iv now (revokeLicense db (row_id l)) k m)) k = Some l2
              \<and> status l2 = ''active'')"
proof -
  let ?db = "revokeLicense db (row_id l)"
  have sel: "select_by_key ?db k = Some (l\<lparr>status := ''revoked''\<rparr>)"
    unfolding revokeLicense_def by (simp add: select_by_key_update assms)
  from validate_found_fst [OF sel, of pf iv now m] validate_found_snd [OF sel, of pf iv now m]
  show ?thesis unfolding sel by (simp add: stored_after_validate_def)
qed

text \<open>On the license of the example.\<close>

theorem validate_reactivates_revoked_witness:
  "select_by_key db_K ''RATO-AAAA-BBBB-CCCC-DDDD'' = Some license_K
   \<and> valid (fst (validateLicense toy_platform iv_zero jan_15_2024
                    (revokeLicense db_K (row_id license_K)) ''RATO-AAAA-BBBB-CCCC-DDDD'' ''A''))"
proof -
  have h1: "select_by_key db_K ''RATO-AAAA-BBBB-CCCC-DDDD'' = Some license_K"
    by (simp add: select_by_key_def db_K_def license_K_def)
  from validate_reactivates_revoked [OF h1, where pf = toy_platform and iv = iv_zero
         and now = jan_15_2024 and m = "''A''"]
  show ?thesis using h1 by simp
qed

text \<open>
  Claim C2 as stated fails: after the license with id 1 is revoked, a validation of its key
  is valid, its reason is not \<open>revoked\<close>, and the stored status is \<open>'active'\<close> again.
\<close>

theorem revoked_counterexample:
  "map status (licenses (revokeLicense db_K 1)) = [''revoked'']
   \<and> valid (fst (validateLicense toy_platform iv_zero jan_15_2024 (revokeLicense db_K 1)
                    ''RATO-AAAA-BBBB-CCCC-DDDD'' ''A''))
   \<and> reason (fst (validateLicense toy_platform iv_zero jan_15_2024 (revokeLicense db_K 1)
                     ''RATO-AAAA-BBBB-CCCC-DDDD'' ''A'')) \<noteq> Some ''revoked''
   \<and> map status (licenses (snd (validateLicense toy_platform iv_zero jan_15_2024
                                   (revokeLicense db_K 1) ''RATO-AAAA-BBBB-CCCC-DDDD'' ''A'')))
       = [''active'']"
  by (simp add: toy_eval)

section \<open>Unknown keys\<close>

text \<open>
  Claim C3, as the code behaves. For a key under which no license is stored:
  when the key does not start with \<open>RATO-\<close>, \<open>validateLicense\<close> returns \<open>valid: false\<close> with
  the reason that the key must start with \<open>RATO-\<close> and leaves the database unchanged; when
  it starts with \<open>RATO-\<close>, the call creates a lifetime license for 999 machines under that
  key, binds the machine to it and returns \<open>valid: true\<close>.
\<close>

theorem validate_unknown_key:
  assumes "select_by_key db k = None"
  shows "(\<not> startsWith k ''RATO-'' \<longrightarrow>
            validateLicense pf iv now db k m = (Invalid reason_invalid_key, db))
       \<and> (startsWith k ''RATO-'' \<longrightarrow>
            valid (fst (validateLicense pf iv now db k m))
          \<and> (\<exists>l. select_by_key (snd (validateLicense pf iv now db k m)) k = Some l
                 \<and> plan l = ''lifetime'' \<and> max_machines l = 999
                 \<and> parse_machines (machines_used l) = [m]))"
proof (intro conjI impI)
  assume "\<not> startsWith k ''RATO-''"
  then show "validateLicense pf iv now db k m = (Invalid reason_invalid_key, db)"
    by (rule validate_bad_prefix [OF assms])
next
  assume p: "startsWith k ''RATO-''"
  from validate_rato [OF p, of db pf now iv m] obtain l where
    l: "select_by_key db k = Some l \<or> (select_by_key db k = None \<and> l = auto_created pf now db k)"
    and v: "valid (fst (validateLicense pf iv now db k m))"
    and s0: "select_by_key (snd (validateLicense pf iv now db k m)) k
            = Some (stored_after_validate pf now m l)"
    by (elim exE conjE)
  from l assms have "l = auto_created pf now db k" by simp
  with s0 have s: "select_by_key (snd (validateLicense pf iv now db k m)) k
            = Some (stored_after_validate pf now m (auto_created pf now db k))"
    by simp
  show "valid (fst (validateLicense pf iv now db k m))" by (rule v)
  show "\<exists>l. select_by_key (snd (validateLicense pf iv now db k m)) k = Some l
                 \<and> plan l = ''lifetime'' \<and> max_machines l = 999
                 \<and> parse_machines (machines_used l) = [m]"
    unfolding s by (simp add: stored_after_validate_def auto_created_def parse_machines_def)
qed

text \<open>On the empty database, with a key without the prefix and a key with it.\<close>

theorem validate_unknown_key_witness:
  "select_by_key db_empty ''KEY-1'' = None
   \<and> \<not> startsWith ''KEY-1'' ''RATO-''
   \<and> validateLicense toy_platform iv_zero jan_15_2024 db_empty ''KEY-1'' ''B''
       = (Invalid reason_invalid_key, db_empty)
   \<and> select_by_key db_empty ''RATO-X'' = None
   \<and> startsWith ''RATO-X'' ''RATO-''
   \<and> valid (fst (validateLicense toy_platform iv_zero jan_15_2024 db_empty ''RATO-X'' ''B''))"
proof -
  have h1: "select_by_key db_empty ''KEY-1'' = None"
    by (simp add: select_by_key_def db_empty_def)
  have h2: "\<not> startsWith ''KEY-1'' ''RATO-''" by (simp add: startsWith_def)
  have h3: "select_by_key db_empty ''RATO-X'' = None"
    by (simp add: select_by_key_def db_empty_def)
  have h4: "startsWith ''RATO-X'' ''RATO-''" by (simp add: startsWith_def)
  from validate_unknown_key [OF h1, where pf = toy_platform and iv = iv_zero
         and now = jan_15_2024 and m = "''B''"] h2
  have a: "validateLicense toy_platform iv_zero jan_15_2024 db_empty ''KEY-1'' ''B''
           = (Invalid reason_invalid_key, db_empty)"
    by simp
  from validate_unknown_key [OF h3, where pf = toy_platform and iv = iv_zero
         and now = jan_15_2024 and m = "''B''"] h4
  have b: "valid (fst (validateLicense toy_platform iv_zero jan_15_2024 db_empty ''RATO-X'' ''B''))"
    by simp
  show ?thesis by (intro conjI h1 h2 h3 h4 a b)
qed

text \<open>
  Claim C3 as stated fails: no license is stored under \<open>RATO-X\<close> in the empty database,
  and the validation of that key is valid and leaves a license under it in the table.
\<close>

theorem unknown_key_counterexample:
  "select_by_key db_empty ''RATO-X'' = None
   \<and> valid (fst (validateLicense toy_platform iv_zero jan_15_2024 db_empty ''RATO-X'' ''B''))
   \<and> map key (licenses (snd (validateLicense toy_platform iv_zero jan_15_2024 db_empty
                                ''RATO-X'' ''B''))) = [''RATO-X'']
   \<and> snd (validateLicense toy_platform iv_zero jan_15_2024 db_empty ''RATO-X'' ''B'')
       \<noteq> db_empty"
  by (simp add: toy_eval)

section \<open>Calendar arithmetic\<close>

lemma DaysInYear_cases: "DaysInYear y = 365 \<or> DaysInYear y = 366"
  by (simp add: DaysInYear_def)

lemma div_next:
  fixes a k :: int
  assumes "0 < k"
  shows "(a + 1) div k = a div k + (if (a + 1) mod k = 0 then 1 else 0)"
proof -
  define q r where "q = a div k" and "r = a mod k"
  have a: "a = k * q + r" and r0: "0 \<le> r" and rk: "r < k"
    using assms by (simp_all add: q_def r_def)
  show ?thesis
  proof (cases "r + 1 < k")
    case True
    have e: "a + 1 = k * q + (r + 1)" using a by simp
    have "(a + 1) div k = q" using e _ True by (rule int_div_pos_eq) (use r0 in simp)
    moreover have "(a + 1) mod k = r + 1" using e _ True by (rule int_mod_pos_eq) (use r0 in simp)
    ultimately show ?thesis using r0 by (simp add: q_def)
  next
    case False
    with rk have rk1: "r + 1 = k" by simp
    have e: "a + 1 = k * (q + 1) + 0" using a rk1 by (simp add: algebra_simps)
    have "(a + 1) div k = q + 1" using e _ assms by (rule int_div_pos_eq) simp
    moreover have "(a + 1) mod k = 0" using e _ assms by (rule int_mod_pos_eq) simp
    ultimately show ?thesis by (simp add: q_def)
  qed
qed

lemma mod_shift:
  fixes y k c :: int
  shows "(y - k * c) mod k = y mod k"
proof -
  have "(y - k * c) mod k = (y + k * (- c)) mod k" by simp
  also have "\<dots> = y mod k" by (rule mod_mult_self2)
  finally show ?thesis .
qed

lemma div4_next: "((y::int) - 1968) div 4 = (y - 1969) div 4 + (if y mod 4 = 0 then 1 else 0)"
  using div_next [of 4 "y - 1969"] mod_shift [of y 4 492] by simp

lemma div100_next: "((y::int) - 1900) div 100 = (y - 1901) div 100 + (if y mod 100 = 0 then 1 else 0)"
  using div_next [of 100 "y - 1901"] mod_shift [of y 100 19] by simp

lemma div400_next: "((y::int) - 1600) div 400 = (y - 1601) div 400 + (if y mod 400 = 0 then 1 else 0)"
  using div_next [of 400 "y - 1601"] mod_shift [of y 400 4] by simp

lemma mod_100_4: "(y::int) mod 100 = 0 \<Longrightarrow> y mod 4 = 0"
proof -
  assume a: "y mod 100 = 0"
  have "y mod 4 = y mod 100 mod 4" by (rule mod_mod_cancel [symmetric]) simp
  then show ?thesis using a by simp
qed

lemma mod_400_100: "(y::int) mod 400 = 0 \<Longrightarrow> y mod 100 = 0"
proof -
  assume a: "y mod 400 = 0"
  have "y mod 100 = y mod 400 mod 100" by (rule mod_mod_cancel [symmetric]) simp
  then show ?thesis using a by simp
qed

lemma DayFromYear_unfold_next:
  "DayFromYear (y + 1)
   = 365 * (y - 1969) + (y - 1968) div 4 - (y - 1900) div 100 + (y - 1600) div 400"
  by (simp add: DayFromYear_def)

lemma DayFromYear_next: "DayFromYear (y + 1) = DayFromYear y + DaysInYear y"
proof -
  consider (a) "y mod 4 \<noteq> 0" | (b) "y mod 4 = 0" "y mod 100 \<noteq> 0"
    | (c) "y mod 100 = 0" "y mod 400 \<noteq> 0" | (d) "y mod 400 = 0"
    by fastforce
  then show ?thesis
  proof cases
    case a
    then have "y mod 100 \<noteq> 0" "y mod 400 \<noteq> 0"
      using mod_100_4 [of y] mod_400_100 [of y] by auto
    with a show ?thesis
      unfolding DayFromYear_unfold_next div4_next div100_next div400_next
      by (simp add: DayFromYear_def DaysInYear_def)
  next
    case b
    then have "y mod 400 \<noteq> 0" using mod_400_100 [of y] by auto
    with b show ?thesis
      unfolding DayFromYear_unfold_next div4_next div100_next div400_next
      by (simp add: DayFromYear_def DaysInYear_def)
  next
    case c
    then have "y mod 4 = 0" using mod_100_4 [of y] by auto
    with c show ?thesis
      unfolding DayFromYear_unfold_next div4_next div100_next div400_next
      by (simp add: DayFromYear_def DaysInYear_def)
  next
    case d
    then have "y mod 100 = 0" using mod_400_100 [of y] by auto
    moreover from this have "y mod 4 = 0" using mod_100_4 [of y] by auto
    ultimately show ?thesis using d
      unfolding DayFromYear_unfold_next div4_next div100_next div400_next
      by (simp add: DayFromYear_def DaysInYear_def)
  qed
qed

lemma div_shift:
  fixes a k c :: int
  assumes "k \<noteq> 0"
  shows "(a + k * c) div k = a div k + c"
  using assms by simp

lemma div4_century: "((y::int) - 1869) div 4 = (y - 1969) div 4 + 25"
  using div_shift [of 4 "y - 1969" 25] by simp

lemma div100_century: "((y::int) - 1801) div 100 = (y - 1901) div 100 + 1"
  using div_shift [of 100 "y - 1901" 1] by simp

lemma div400_century:
  "((y::int) - 1501) div 400 = (y - 1601) div 400 \<or> (y - 1501) div 400 = (y - 1601) div 400 + 1"
proof -
  define q r where "q = (y - 1601) div 400" and "r = (y - 1601) mod 400"
  have a: "y - 1601 = 400 * q + r" and r0: "0 \<le> r" and rk: "r < 400"
    by (simp_all add: q_def r_def)
  show ?thesis
  proof (cases "r + 100 < 400")
    case True
    have e: "y - 1501 = 400 * q + (r + 100)" using a by simp
    have "(y - 1501) div 400 = q" using e _ True by (rule int_div_pos_eq) (use r0 in simp)
    then show ?thesis by (simp add: q_def)
  next
    case False
    have e: "y - 1501 = 400 * (q + 1) + (r - 300)" using a by simp
    have "(y - 1501) div 400 = q + 1"
      using e by (rule int_div_pos_eq) (use False rk in simp_all)
    then show ?thesis by (simp add: q_def)
  qed
qed

lemma DayFromYear_century:
  "DayFromYear (y + 100) = DayFromYear y + 36524 \<or> DayFromYear (y + 100) = DayFromYear y + 36525"
proof -
  have "DayFromYear (y + 100)
        = 365 * (y - 1870) + (y - 1869) div 4 - (y - 1801) div 100 + (y - 1501) div 400"
    by (simp add: DayFromYear_def)
  moreover have "DayFromYear y = 365 * (y - 1970) + (y - 1969) div 4 - (y - 1901) div 100
                     + (y - 1601) div 400"
    by (simp add: DayFromYear_def)
  ultimately show ?thesis
    using div400_century [of y]
    by (simp only: div4_century div100_century) auto
qed


lemma DaysBeforeMonth_table:
  "DaysBeforeMonth y 0 = 0"
  "DaysBeforeMonth y 1 = 31"
  "DaysBeforeMonth y 2 = DaysInYear y - 306"
  "DaysBeforeMonth y 3 = DaysInYear y - 275"
  "DaysBeforeMonth y 4 = DaysInYear y - 245"
  "DaysBeforeMonth y 5 = DaysInYear y - 214"
  "DaysBeforeMonth y 6 = DaysInYear y - 184"
  "DaysBeforeMonth y 7 = DaysInYear y - 153"
  "DaysBeforeMonth y 8 = DaysInYear y - 122"
  "DaysBeforeMonth y 9 = DaysInYear y - 92"
  "DaysBeforeMonth y 10 = DaysInYear y - 61"
  "DaysBeforeMonth y 11 = DaysInYear y - 31"
  by (simp_all add: DaysBeforeMonth_def DaysInMonth_def eval_nat_numeral)

lemma month_cases:
  assumes "0 \<le> (m::int)" "m < 12"
  obtains "m = 0" | "m = 1" | "m = 2" | "m = 3" | "m = 4" | "m = 5" | "m = 6" | "m = 7"
    | "m = 8" | "m = 9" | "m = 10" | "m = 11"
proof -
  from assms have "m = 0 \<or> m = 1 \<or> m = 2 \<or> m = 3 \<or> m = 4 \<or> m = 5 \<or> m = 6 \<or> m = 7
    \<or> m = 8 \<or> m = 9 \<or> m = 10 \<or> m = 11"
    by presburger
  then show thesis using that by fastforce
qed

lemma DaysInMonth_bounds:
  assumes "0 \<le> m" "m < 12"
  shows "28 \<le> DaysInMonth y m \<and> DaysInMonth y m \<le> 31"
  using DaysInYear_cases [of y] by (auto simp: DaysInMonth_def)

lemma MakeDay_next_month:
  assumes "0 \<le> m" "m < 12"
  shows "MakeDay y (m + 1) dt = MakeDay y m dt + DaysInMonth y m"
  using assms
  by (rule month_cases)
     (simp_all add: MakeDay_def DaysBeforeMonth_table DaysInMonth_def DayFromYear_next)

lemma MakeDay_next_year:
  assumes "0 \<le> m" "m < 12"
  shows "MakeDay (y + 1) m dt = MakeDay y m dt + 365 \<or> MakeDay (y + 1) m dt = MakeDay y m dt + 366"
  using assms
proof (rule month_cases)
qed (use DaysInYear_cases [of y] DaysInYear_cases [of "y + 1"] in
      \<open>auto simp: MakeDay_def DaysBeforeMonth_table DayFromYear_next\<close>)

lemma DayFromYear_century_next:
  "DayFromYear (y + 100) + DaysInYear (y + 100) = DayFromYear y + DaysInYear y + 36524
   \<or> DayFromYear (y + 100) + DaysInYear (y + 100) = DayFromYear y + DaysInYear y + 36525"
proof -
  have "DayFromYear (y + 100) + DaysInYear (y + 100) = DayFromYear (y + 1 + 100)"
    using DayFromYear_next [of "y + 100"] by (simp add: add.commute add.left_commute)
  moreover have "DayFromYear y + DaysInYear y = DayFromYear (y + 1)"
    by (simp add: DayFromYear_next)
  ultimately show ?thesis using DayFromYear_century [of "y + 1"] by simp
qed

lemma MakeDay_century:
  assumes "0 \<le> m" "m < 12"
  shows "MakeDay (y + 100) m dt = MakeDay y m dt + 36524
       \<or> MakeDay (y + 100) m dt = MakeDay y m dt + 36525"
  using assms
proof (rule month_cases)
qed (use DayFromYear_century [of y] DayFromYear_century_next [of y] in
      \<open>auto simp: MakeDay_def DaysBeforeMonth_table\<close>)

lemma local_next_month:
  assumes "valid_date now"
  shows "localTime (now\<lparr>getMonth := getMonth now + 1\<rparr>)
         = localTime now + DaysInMonth (getFullYear now) (getMonth now) * msPerDay"
proof -
  from assms have m: "0 \<le> getMonth now" "getMonth now < 12" by (simp_all add: valid_date_def)
  from MakeDay_next_month [OF m, of "getFullYear now" "getDate now"] show ?thesis
    by (simp add: localTime_def MakeDate_def algebra_simps)
qed

lemma local_next_year:
  assumes "valid_date now"
  shows "localTime (now\<lparr>getFullYear := getFullYear now + 1\<rparr>) = localTime now + 365 * msPerDay
       \<or> localTime (now\<lparr>getFullYear := getFullYear now + 1\<rparr>) = localTime now + 366 * msPerDay"
proof -
  from assms have m: "0 \<le> getMonth now" "getMonth now < 12" by (simp_all add: valid_date_def)
  from MakeDay_next_year [OF m, of "getFullYear now" "getDate now"] show ?thesis
    by (auto simp: localTime_def MakeDate_def algebra_simps)
qed

lemma local_century:
  assumes "valid_date now"
  shows "localTime (now\<lparr>getFullYear := getFullYear now + 100\<rparr>) = localTime now + 36524 * msPerDay
       \<or> localTime (now\<lparr>getFullYear := getFullYear now + 100\<rparr>) = localTime now + 36525 * msPerDay"
proof -
  from assms have m: "0 \<le> getMonth now" "getMonth now < 12" by (simp_all add: valid_date_def)
  from MakeDay_century [OF m, of "getFullYear now" "getDate now"] show ?thesis
    by (auto simp: localTime_def MakeDate_def algebra_simps)
qed

lemma monthly_span:
  assumes "valid_date now"
  shows "expiration_time pf ''monthly'' now - getTime now
         = DaysInMonth (getFullYear now) (getMonth now) * msPerDay
           - (LocalTZA pf (localTime (now\<lparr>getMonth := getMonth now + 1\<rparr>)) - local_offset now)"
  by (simp add: expiration_time_def setMonth_def UTC_def getTime_def local_next_month [OF assms])

lemma annual_span:
  assumes "valid_date now"
  shows "expiration_time pf ''annual'' now - getTime now
         = 365 * msPerDay
           - (LocalTZA pf (localTime (now\<lparr>getFullYear := getFullYear now + 1\<rparr>)) - local_offset now)
       \<or> expiration_time pf ''annual'' now - getTime now
         = 366 * msPerDay
           - (LocalTZA pf (localTime (now\<lparr>getFullYear := getFullYear now + 1\<rparr>)) - local_offset now)"
  using local_next_year [OF assms]
  by (auto simp: expiration_time_def setFullYear_def UTC_def getTime_def)

lemma lifetime_span:
  assumes "valid_date now"
  shows "expiration_time pf ''lifetime'' now - getTime now
         = 36524 * msPerDay
           - (LocalTZA pf (localTime (now\<lparr>getFullYear := getFullYear now + 100\<rparr>)) - local_offset now)
       \<or> expiration_time pf ''lifetime'' now - getTime now
         = 36525 * msPerDay
           - (LocalTZA pf (localTime (now\<lparr>getFullYear := getFullYear now + 100\<rparr>)) - local_offset now)"
  using local_century [OF assms]
  by (auto simp: expiration_time_def setFullYear_def UTC_def getTime_def)

section \<open>Expiration dates and createLicense\<close>

lemma createLicense_result:
  "(case createLicense pf rnd now db data of
      Inl e \<Rightarrow> generateLicenseKey rnd \<in> set (map key (licenses db))
    | Inr (c, db') \<Rightarrow>
        (\<exists>l. select_by_key db' (c_key c) = Some l
             \<and> row_id l = c_id c
             \<and> expires_at l = calculateExpiration pf (d_plan data) now
             \<and> c_expiresAt c = calculateExpiration pf (d_plan data) now
             \<and> plan l = d_plan data
             \<and> status l = ''active''))"
proof (cases "generateLicenseKey rnd \<in> set (map key (licenses db))")
  case True
  then show ?thesis by (simp add: createLicense_def insert_license_def)
next
  case False
  then have none: "find (\<lambda>l. key l = generateLicenseKey rnd) (licenses db) = None"
    using select_by_key_None [of db "generateLicenseKey rnd"] by (simp add: select_by_key_def)
  show ?thesis
    using False
    by (simp add: createLicense_def insert_license_def Let_def select_by_key_def
          find_append_new [OF none])
qed

text \<open>
  Claim C9, as the code behaves. \<open>calculateExpiration(plan)\<close> is the ISO text of an
  instant that the local-time setters of \<open>Date\<close> compute from the clock reading \<open>now\<close>.
  On the local calendar the instant lies as many whole days after \<open>now\<close> as the current
  month has, 28 to 31, for \<open>'monthly'\<close> and for an unknown plan; 365 or 366 days for
  \<open>'annual'\<close>; 36524 or 36525 days, 100 calendar years, for \<open>'lifetime'\<close>. The elapsed
  time is this number of days less the change of the zone's offset from UTC between \<open>now\<close>
  and the expiry: exactly the whole days when both have the same offset, as in UTC, an hour
  less or more across a change of clocks. \<open>createLicense\<close> either fails because the
  generated key is already stored, or stores under the generated key a license with this
  expiry date, the requested plan and status \<open>'active'\<close>, and returns the same expiry date.
\<close>

theorem calculateExpiration_spans:
  assumes "valid_date now"
  shows "calculateExpiration pf p now = toISOString pf (expiration_time pf p now)
       \<and> expiration_time pf ''monthly'' now - getTime now
           = DaysInMonth (getFullYear now) (getMonth now) * msPerDay
             - (LocalTZA pf (localTime (now\<lparr>getMonth := getMonth now + 1\<rparr>)) - local_offset now)
       \<and> 28 \<le> DaysInMonth (getFullYear now) (getMonth now)
       \<and> DaysInMonth (getFullYear now) (getMonth now) \<le> 31
       \<and> (LocalTZA pf (localTime (now\<lparr>getMonth := getMonth now + 1\<rparr>)) = local_offset now \<longrightarrow>
             28 * msPerDay \<le> expiration_time pf ''monthly'' now - getTime now
           \<and> expiration_time pf ''monthly'' now - getTime now \<le> 31 * msPerDay)
       \<and> (p \<noteq> ''annual'' \<and> p \<noteq> ''lifetime'' \<longrightarrow>
             expiration_time pf p now = expiration_time pf ''monthly'' now)
       \<and> (expiration_time pf ''annual'' now - getTime now
            = 365 * msPerDay
              - (LocalTZA pf (localTime (now\<lparr>getFullYear := getFullYear now + 1\<rparr>)) - local_offset now)
          \<or> expiration_time pf ''annual'' now - getTime now
            = 366 * msPerDay
              - (LocalTZA pf (localTime (now\<lparr>getFullYear := getFullYear now + 1\<rparr>)) - local_offset now))
       \<and> (expiration_time pf ''lifetime'' now - getTime now
            = 36524 * msPerDay
              - (LocalTZA pf (localTime (now\<lparr>getFullYear := getFullYear now + 100\<rparr>)) - local_offset now)
          \<or> expiration_time pf ''lifetime'' now - getTime now
            = 36525 * msPerDay
              - (LocalTZA pf (localTime (now\<lparr>getFullYear := getFullYear now + 100\<rparr>)) - local_offset now))
       \<and> (case createLicense pf rnd now db data of
             Inl e \<Rightarrow> generateLicenseKey rnd \<in> set (map key (licenses db))
           | Inr (c, db') \<Rightarrow>
               (\<exists>l. select_by_key db' (c_key c) = Some l
                    \<and> row_id l = c_id c
                    \<and> expires_at l = calculateExpiration pf (d_plan data) now
                    \<and> c_expiresAt c = calculateExpiration pf (d_plan data) now
                    \<and> plan l = d_plan data
                    \<and> status l = ''active''))"
proof -
  from assms have m: "0 \<le> getMonth now" "getMonth now < 12" by (simp_all add: valid_date_def)
  have ms: "0 < msPerDay" by (simp add: msPerDay_def)
  note b = DaysInMonth_bounds [OF m, of "getFullYear now"]
  have lo: "28 * msPerDay \<le> DaysInMonth (getFullYear now) (getMonth now) * msPerDay"
    using b ms by simp
  have hi: "DaysInMonth (getFullYear now) (getMonth now) * msPerDay \<le> 31 * msPerDay"
    using b ms by simp
  have other: "p \<noteq> ''annual'' \<and> p \<noteq> ''lifetime'' \<longrightarrow>
                 expiration_time pf p now = expiration_time pf ''monthly'' now"
    by (simp add: expiration_time_def)
  show ?thesis
    using lo hi b other annual_span [OF assms, of pf] lifetime_span [OF assms, of pf]
      createLicense_result [where pf = pf and rnd = rnd and now = now and db = db and data = data]
    unfolding monthly_span [OF assms]
    by (simp add: calculateExpiration_def)
qed

text \<open>
  On 15 January 2024 in UTC: 31 days, 366 days and 36524 days. From noon of 12 February
  2023 in New York: 28 days less one hour, because the clocks change on 12 March. From 31
  January 2023 in UTC: 3 March 2023, since February has no day 31.
\<close>

theorem calculateExpiration_spans_witness:
  "valid_date jan_15_2024
   \<and> expiration_time toy_platform ''monthly'' jan_15_2024 - getTime jan_15_2024 = 31 * msPerDay
   \<and> expiration_time toy_platform ''annual'' jan_15_2024 - getTime jan_15_2024 = 366 * msPerDay
   \<and> expiration_time toy_platform ''lifetime'' jan_15_2024 - getTime jan_15_2024
       = 36524 * msPerDay
   \<and> valid_date feb_12_2023_noon
   \<and> expiration_time new_york ''monthly'' feb_12_2023_noon - getTime feb_12_2023_noon
       = 28 * msPerDay - 3600000
   \<and> valid_date jan_31_2023
   \<and> expiration_time toy_platform ''monthly'' jan_31_2023 - getTime jan_31_2023 = 31 * msPerDay
   \<and> expiration_time toy_platform ''monthly'' jan_31_2023
       = getTime \<lparr> getFullYear = 2023, getMonth = 2, getDate = 3, time_in_day = 0,
                   local_offset = 0 \<rparr>"
proof -
  have v: "valid_date jan_15_2024"
    by (simp add: valid_date_def jan_15_2024_def DaysInMonth_def msPerDay_def)
  have o: "local_offset jan_15_2024 = 0" by (simp add: jan_15_2024_def)
  have a: "expiration_time toy_platform ''annual'' jan_15_2024 - getTime jan_15_2024
           \<noteq> 365 * msPerDay"
    by (simp add: expiration_time_def setFullYear_def UTC_def getTime_def localTime_def
          MakeDate_def MakeDay_def DayFromYear_def DaysBeforeMonth_table jan_15_2024_def
          msPerDay_def)
  have l: "expiration_time toy_platform ''lifetime'' jan_15_2024 - getTime jan_15_2024
           \<noteq> 36525 * msPerDay"
    by (simp add: expiration_time_def setFullYear_def UTC_def getTime_def localTime_def
          MakeDate_def MakeDay_def DayFromYear_def DaysBeforeMonth_table jan_15_2024_def
          msPerDay_def)
  have d: "DaysInMonth (getFullYear jan_15_2024) (getMonth jan_15_2024) = 31"
    by (simp add: DaysInMonth_def jan_15_2024_def)
  have utc: "expiration_time toy_platform ''monthly'' jan_15_2024 - getTime jan_15_2024
               = 31 * msPerDay
           \<and> expiration_time toy_platform ''annual'' jan_15_2024 - getTime jan_15_2024
               = 366 * msPerDay
           \<and> expiration_time toy_platform ''lifetime'' jan_15_2024 - getTime jan_15_2024
               = 36524 * msPerDay"
    using calculateExpiration_spans [OF v, where pf = toy_platform and p = "''monthly''"
            and rnd = "\<lambda>k. 1 / 2" and db = db_empty
            and data = "\<lparr> d_email = None, d_plan = ''monthly'', d_maxMachines = None \<rparr>"] a l
    by (simp add: d o)
  have w: "valid_date feb_12_2023_noon"
    by (simp add: valid_date_def feb_12_2023_noon_def DaysInMonth_def DaysInYear_def
          msPerDay_def)
  have z: "LocalTZA new_york
             (localTime (feb_12_2023_noon\<lparr>getMonth := getMonth feb_12_2023_noon + 1\<rparr>))
           - local_offset feb_12_2023_noon = 3600000"
    by (simp add: new_york_def localTime_def MakeDate_def MakeDay_def DayFromYear_def
          DaysBeforeMonth_table DaysInYear_def feb_12_2023_noon_def msPerDay_def)
  have e: "DaysInMonth (getFullYear feb_12_2023_noon) (getMonth feb_12_2023_noon) = 28"
    by (simp add: DaysInMonth_def DaysInYear_def feb_12_2023_noon_def)
  have ny: "expiration_time new_york ''monthly'' feb_12_2023_noon - getTime feb_12_2023_noon
              = 28 * msPerDay - 3600000"
    using calculateExpiration_spans [OF w, where pf = new_york and p = "''monthly''"
            and rnd = "\<lambda>k. 1 / 2" and db = db_empty
            and data = "\<lparr> d_email = None, d_plan = ''monthly'', d_maxMachines = None \<rparr>"]
    by (simp add: e z)
  have x: "valid_date jan_31_2023"
    by (simp add: valid_date_def jan_31_2023_def DaysInMonth_def msPerDay_def)
  have f: "DaysInMonth (getFullYear jan_31_2023) (getMonth jan_31_2023) = 31"
    by (simp add: DaysInMonth_def jan_31_2023_def)
  have q: "local_offset jan_31_2023 = 0" by (simp add: jan_31_2023_def)
  have j: "expiration_time toy_platform ''monthly'' jan_31_2023 - getTime jan_31_2023
             = 31 * msPerDay"
    using calculateExpiration_spans [OF x, where pf = toy_platform and p = "''monthly''"
            and rnd = "\<lambda>k. 1 / 2" and db = db_empty
            and data = "\<lparr> d_email = None, d_plan = ''monthly'', d_maxMachines = None \<rparr>"]
    by (simp add: f q)
  have k: "expiration_time toy_platform ''monthly'' jan_31_2023
             = getTime \<lparr> getFullYear = 2023, getMonth = 2, getDate = 3, time_in_day = 0,
                         local_offset = 0 \<rparr>"
    by (simp add: expiration_time_def setMonth_def UTC_def getTime_def localTime_def
          MakeDate_def MakeDay_def DayFromYear_def DaysBeforeMonth_table DaysInYear_def
          jan_31_2023_def msPerDay_def)
  show ?thesis
    using v utc w ny x j k by simp
qed

text \<open>
  Claim C9 as stated fails for \<open>'monthly'\<close>: on 10 February 2023, in UTC, the expiry is 28
  days later, outside 30 days plus or minus one.
\<close>

theorem monthly_span_counterexample:
  "valid_date feb_10_2023
   \<and> expiration_time toy_platform ''monthly'' feb_10_2023 - getTime feb_10_2023
       = 28 * msPerDay
   \<and> \<not> (29 * msPerDay
           \<le> expiration_time toy_platform ''monthly'' feb_10_2023 - getTime feb_10_2023
         \<and> expiration_time toy_platform ''monthly'' feb_10_2023 - getTime feb_10_2023
           \<le> 31 * msPerDay)"
  by (simp add: valid_date_def expiration_time_def setMonth_def UTC_def getTime_def
        localTime_def MakeDate_def MakeDay_def DayFromYear_def DaysBeforeMonth_table
        DaysInMonth_def DaysInYear_def feb_10_2023_def msPerDay_def)


section \<open>Keys with the prefix RATO-\<close>

lemma valid_no_reason: "valid r \<Longrightarrow> reason r = None"
  by (cases r) simp_all

lemma never_machine_limit:
  "reason (fst (validateLicense pf iv now db k m)) \<noteq> Some ''machine limit exceeded''"
proof (cases "select_by_key db k")
  case (Some l)
  have "valid (fst (validateLicense pf iv now db k m))"
    using validate_found_fst [OF Some, of pf iv now m] by (rule conjunct1)
  then show ?thesis by (simp add: valid_no_reason)
next
  case None
  show ?thesis
  proof (cases "startsWith k ''RATO-''")
    case True
    from validate_rato [OF True, of db pf now iv m]
    have "valid (fst (validateLicense pf iv now db k m))" by (elim exE conjE)
    then show ?thesis by (simp add: valid_no_reason)
  next
    case False
    show ?thesis
      unfolding validate_bad_prefix [OF None False]
      by (simp add: reason_invalid_key_def)
  qed
qed

text \<open>
  Claim C4. For every key starting with \<open>RATO-\<close> and every machine identifier,
  \<open>validateLicense\<close> returns \<open>valid: true\<close>, whatever the database held before, and a
  license is stored under the key afterwards with status \<open>'active'\<close> and the machine in its
  \<open>machines_used\<close>. When no license was stored, the new one has plan \<open>'lifetime'\<close>,
  \<open>max_machines\<close> 999 and the lifetime expiry date. When a license \<open>l\<close> was stored, an
  expiry date in the past is replaced by the lifetime expiry date and any other is kept,
  and a machine not yet listed is appended whatever \<open>max_machines\<close> is. For every key,
  with or without the prefix, the reason is never \<open>machine limit exceeded\<close>. The lifetime
  expiry date is the ISO text of an instant 100 calendar years after a valid clock
  reading: 36524 or 36525 days, less the change of the zone's offset from UTC between the
  clock reading and the expiry, which is zero in UTC.
\<close>

theorem validate_RATO_always_valid:
  "(startsWith k ''RATO-'' \<longrightarrow>
      valid (fst (validateLicense pf iv now db k m))
    \<and> (\<exists>l'. select_by_key (snd (validateLicense pf iv now db k m)) k = Some l'
          \<and> status l' = ''active''
          \<and> m \<in> set (parse_machines (machines_used l'))
          \<and> (select_by_key db k = None \<longrightarrow>
                plan l' = ''lifetime'' \<and> max_machines l' = 999
              \<and> expires_at l' = calculateExpiration pf ''lifetime'' now
              \<and> parse_machines (machines_used l') = [m])
          \<and> (\<forall>l. select_by_key db k = Some l \<longrightarrow>
                (date_before pf (Some (expires_at l)) (getTime now) \<longrightarrow>
                   expires_at l' = calculateExpiration pf ''lifetime'' now)
              \<and> (\<not> date_before pf (Some (expires_at l)) (getTime now) \<longrightarrow>
                   expires_at l' = expires_at l)
              \<and> (m \<notin> set (parse_machines (machines_used l)) \<longrightarrow>
                   parse_machines (machines_used l') = parse_machines (machines_used l) @ [m])
              \<and> max_machines l' = max_machines l)))
   \<and> reason (fst (validateLicense pf iv now db k m)) \<noteq> Some ''machine limit exceeded''
   \<and> calculateExpiration pf ''lifetime'' now
       = toISOString pf (expiration_time pf ''lifetime'' now)
   \<and> (valid_date now \<longrightarrow>
         expiration_time pf ''lifetime'' now - getTime now
           = 36524 * msPerDay
             - (LocalTZA pf (localTime (now\<lparr>getFullYear := getFullYear now + 100\<rparr>))
                - local_offset now)
       \<or> expiration_time pf ''lifetime'' now - getTime now
           = 36525 * msPerDay
             - (LocalTZA pf (localTime (now\<lparr>getFullYear := getFullYear now + 100\<rparr>))
                - local_offset now))"
proof (intro conjI impI)
  assume p: "startsWith k ''RATO-''"
  from validate_rato [OF p, of db pf now iv m] obtain l where
    l: "select_by_key db k = Some l \<or> (select_by_key db k = None \<and> l = auto_created pf now db k)"
    and v: "valid (fst (validateLicense pf iv now db k m))"
    and s: "select_by_key (snd (validateLicense pf iv now db k m)) k
            = Some (stored_after_validate pf now m l)"
    by (elim exE conjE)
  show "valid (fst (validateLicense pf iv now db k m))" by (rule v)
  show "\<exists>l'. select_by_key (snd (validateLicense pf iv now db k m)) k = Some l'
          \<and> status l' = ''active''
          \<and> m \<in> set (parse_machines (machines_used l'))
          \<and> (select_by_key db k = None \<longrightarrow>
                plan l' = ''lifetime'' \<and> max_machines l' = 999
              \<and> expires_at l' = calculateExpiration pf ''lifetime'' now
              \<and> parse_machines (machines_used l') = [m])
          \<and> (\<forall>l. select_by_key db k = Some l \<longrightarrow>
                (date_before pf (Some (expires_at l)) (getTime now) \<longrightarrow>
                   expires_at l' = calculateExpiration pf ''lifetime'' now)
              \<and> (\<not> date_before pf (Some (expires_at l)) (getTime now) \<longrightarrow>
                   expires_at l' = expires_at l)
              \<and> (m \<notin> set (parse_machines (machines_used l)) \<longrightarrow>
                   parse_machines (machines_used l') = parse_machines (machines_used l) @ [m])
              \<and> max_machines l' = max_machines l)"
    using l unfolding s
    by (auto simp: stored_after_validate_def auto_created_def)
next
  show "reason (fst (validateLicense pf iv now db k m)) \<noteq> Some ''machine limit exceeded''"
    by (rule never_machine_limit)
next
  show "calculateExpiration pf ''lifetime'' now
        = toISOString pf (expiration_time pf ''lifetime'' now)"
    by (simp add: calculateExpiration_def)
next
  assume "valid_date now"
  then show "expiration_time pf ''lifetime'' now - getTime now
           = 36524 * msPerDay
             - (LocalTZA pf (localTime (now\<lparr>getFullYear := getFullYear now + 100\<rparr>))
                - local_offset now)
       \<or> expiration_time pf ''lifetime'' now - getTime now
           = 36525 * msPerDay
             - (LocalTZA pf (localTime (now\<lparr>getFullYear := getFullYear now + 100\<rparr>))
                - local_offset now)"
    by (rule lifetime_span)
qed

text \<open>
  On the empty database with the key \<open>RATO-X\<close>, and on the license of the example, read
  in the year 2100, after its expiry date.
\<close>

theorem validate_RATO_always_valid_witness:
  "startsWith ''RATO-X'' ''RATO-''
   \<and> select_by_key db_empty ''RATO-X'' = None
   \<and> valid (fst (validateLicense toy_platform iv_zero jan_15_2024 db_empty ''RATO-X'' ''B''))
   \<and> (\<exists>l'. select_by_key (snd (validateLicense toy_platform iv_zero jan_15_2024 db_empty
                                  ''RATO-X'' ''B'')) ''RATO-X'' = Some l'
          \<and> status l' = ''active'' \<and> plan l' = ''lifetime'' \<and> max_machines l' = 999
          \<and> parse_machines (machines_used l') = [''B''])
   \<and> valid_date jan_15_2024
   \<and> expiration_time toy_platform ''lifetime'' jan_15_2024 - getTime jan_15_2024
       = 36524 * msPerDay
   \<and> startsWith ''RATO-AAAA-BBBB-CCCC-DDDD'' ''RATO-''
   \<and> select_by_key db_K ''RATO-AAAA-BBBB-CCCC-DDDD'' = Some license_K
   \<and> ''B'' \<notin> set (parse_machines (machines_used license_K))
   \<and> date_before toy_platform (Some (expires_at license_K))
        (getTime (jan_15_2024\<lparr>getFullYear := 2100\<rparr>))
   \<and> (\<exists>l'. select_by_key (snd (validateLicense toy_platform iv_zero
                                  (jan_15_2024\<lparr>getFullYear := 2100\<rparr>) db_K ''RATO-AAAA-BBBB-CCCC-DDDD'' ''B'')) ''RATO-AAAA-BBBB-CCCC-DDDD''
              = Some l'
          \<and> status l' = ''active''
          \<and> expires_at l'
              = calculateExpiration toy_platform ''lifetime'' (jan_15_2024\<lparr>getFullYear := 2100\<rparr>)
          \<and> parse_machines (machines_used l') = [''A'', ''B'']
          \<and> max_machines l' = 1)"
proof -
  have p1: "startsWith ''RATO-X'' ''RATO-''" by (simp add: startsWith_def)
  have n1: "select_by_key db_empty ''RATO-X'' = None"
    by (simp add: select_by_key_def db_empty_def)
  have vd: "valid_date jan_15_2024"
    by (simp add: valid_date_def jan_15_2024_def DaysInMonth_def msPerDay_def)
  have sp: "expiration_time toy_platform ''lifetime'' jan_15_2024 - getTime jan_15_2024
            \<noteq> 36525 * msPerDay"
    by (simp add: expiration_time_def setFullYear_def UTC_def getTime_def localTime_def
          MakeDate_def MakeDay_def DayFromYear_def DaysBeforeMonth_table jan_15_2024_def
          msPerDay_def)
  have off: "local_offset jan_15_2024 = 0" by (simp add: jan_15_2024_def)
  have p2: "startsWith ''RATO-AAAA-BBBB-CCCC-DDDD'' ''RATO-''" by (simp add: startsWith_def)
  have s2: "select_by_key db_K ''RATO-AAAA-BBBB-CCCC-DDDD'' = Some license_K"
    by (simp add: select_by_key_def db_K_def license_K_def)
  have b2: "''B'' \<notin> set (parse_machines (machines_used license_K))"
    by (simp add: license_K_def)
  have ms: "parse_machines (machines_used license_K) = [''A'']" by (simp add: license_K_def)
  have mx: "max_machines license_K = 1" by (simp add: license_K_def)
  have d2: "date_before toy_platform (Some (expires_at license_K))
              (getTime (jan_15_2024\<lparr>getFullYear := 2100\<rparr>))"
    by (simp add: date_before_def toy_platform_def license_K_def getTime_def localTime_def
          MakeDate_def MakeDay_def DayFromYear_def DaysBeforeMonth_table jan_15_2024_def msPerDay_def)
  note t1 = validate_RATO_always_valid [where k = "''RATO-X''" and pf = toy_platform
              and iv = iv_zero and now = jan_15_2024 and db = db_empty and m = "''B''"]
  note t2 = validate_RATO_always_valid [where k = "''RATO-AAAA-BBBB-CCCC-DDDD''" and pf = toy_platform
              and iv = iv_zero and now = "jan_15_2024\<lparr>getFullYear := 2100\<rparr>" and db = db_K
              and m = "''B''"]
  have a: "valid (fst (validateLicense toy_platform iv_zero jan_15_2024 db_empty ''RATO-X'' ''B''))
   \<and> (\<exists>l'. select_by_key (snd (validateLicense toy_platform iv_zero jan_15_2024 db_empty
                                  ''RATO-X'' ''B'')) ''RATO-X'' = Some l'
          \<and> status l' = ''active'' \<and> plan l' = ''lifetime'' \<and> max_machines l' = 999
          \<and> parse_machines (machines_used l') = [''B''])"
    using t1 p1 n1 by auto
  have b: "expiration_time toy_platform ''lifetime'' jan_15_2024 - getTime jan_15_2024
           = 36524 * msPerDay"
    using t1 vd sp by (simp add: off)
  have c: "\<exists>l'. select_by_key (snd (validateLicense toy_platform iv_zero
                                  (jan_15_2024\<lparr>getFullYear := 2100\<rparr>) db_K ''RATO-AAAA-BBBB-CCCC-DDDD'' ''B'')) ''RATO-AAAA-BBBB-CCCC-DDDD''
              = Some l'
          \<and> status l' = ''active''
          \<and> expires_at l'
              = calculateExpiration toy_platform ''lifetime'' (jan_15_2024\<lparr>getFullYear := 2100\<rparr>)
          \<and> parse_machines (machines_used l') = [''A'', ''B'']
          \<and> max_machines l' = 1"
    using t2 p2 s2 b2 d2 ms mx by auto
  show ?thesis using p1 n1 a vd b p2 s2 b2 d2 c by (intro conjI) simp_all
qed

section \<open>Validating twice\<close>

lemma count_list_append1: "count_list (xs @ [m]) m = count_list xs m + 1"
  by (induction xs) simp_all

lemma count_list_notin: "m \<notin> set xs \<Longrightarrow> count_list xs m = 0"
  by (induction xs) auto

lemma count_list_in: "m \<in> set xs \<Longrightarrow> 1 \<le> count_list xs m"
  by (induction xs) auto

lemma stored_machines_count:
  assumes "count_list (parse_machines (machines_used l)) m \<le> 1"
  shows "count_list (parse_machines (machines_used (stored_after_validate pf now m l))) m = 1"
proof (cases "m \<in> set (parse_machines (machines_used l))")
  case True
  with count_list_in [OF True] assms show ?thesis
    by (simp add: stored_after_validate_def)
next
  case False
  then show ?thesis
    by (simp add: stored_after_validate_def count_list_append1 count_list_notin)
qed

lemma stored_machines_member:
  "m \<in> set (parse_machines (machines_used (stored_after_validate pf now m l)))"
  by (simp add: stored_after_validate_def)

lemma stored_twice_machines:
  "machines_used (stored_after_validate pf2 now2 m (stored_after_validate pf now m l))
   = machines_used (stored_after_validate pf now m l)"
  using stored_machines_member [of m pf now l]
  by (simp add: stored_after_validate_def [of pf2])

text \<open>
  Claim C8. Let the license stored under a key, if there is one, list the machine at most
  once. After two validations with the same key and machine (at any two clock readings),
  the license stored under the key, if there is one, lists the machine exactly once, and
  its \<open>machines_used\<close> is what the first validation left: the second one adds nothing.
\<close>

theorem validate_twice_no_duplicate:
  assumes "\<forall>l. select_by_key db k = Some l
               \<longrightarrow> count_list (parse_machines (machines_used l)) m \<le> 1"
  shows "\<forall>l2. select_by_key
                (snd (validateLicense pf iv2 now2
                        (snd (validateLicense pf iv1 now1 db k m)) k m)) k = Some l2
          \<longrightarrow> count_list (parse_machines (machines_used l2)) m = 1
              \<and> (\<exists>l1. select_by_key (snd (validateLicense pf iv1 now1 db k m)) k = Some l1
                      \<and> machines_used l2 = machines_used l1)"
proof -
  let ?r1 = "validateLicense pf iv1 now1 db k m"
  let ?r2 = "validateLicense pf iv2 now2 (snd ?r1) k m"
  have found: "select_by_key (snd ?r1) k = Some (stored_after_validate pf now1 m l) \<Longrightarrow>
      count_list (parse_machines (machines_used l)) m \<le> 1 \<Longrightarrow> ?thesis" for l
  proof -
    assume s1: "select_by_key (snd ?r1) k = Some (stored_after_validate pf now1 m l)"
      and c: "count_list (parse_machines (machines_used l)) m \<le> 1"
    have s2: "select_by_key (snd ?r2) k
              = Some (stored_after_validate pf now2 m (stored_after_validate pf now1 m l))"
      by (rule validate_found_snd [OF s1])
    show ?thesis
      unfolding s2 s1
      by (simp add: stored_twice_machines stored_machines_count [OF c])
  qed
  show ?thesis
  proof (cases "select_by_key db k")
    case (Some l)
    have "select_by_key (snd ?r1) k = Some (stored_after_validate pf now1 m l)"
      by (rule validate_found_snd [OF Some])
    moreover have "count_list (parse_machines (machines_used l)) m \<le> 1"
      using assms Some by simp
    ultimately show ?thesis by (rule found)
  next
    case None
    show ?thesis
    proof (cases "startsWith k ''RATO-''")
      case True
      from validate_rato [OF True, of db pf now1 iv1 m] obtain l where
        l: "select_by_key db k = Some l \<or> (select_by_key db k = None \<and> l = auto_created pf now1 db k)"
        and s0: "select_by_key (snd ?r1) k = Some (stored_after_validate pf now1 m l)"
        by (elim exE conjE)
      from l None have "l = auto_created pf now1 db k" by simp
      then have "count_list (parse_machines (machines_used l)) m \<le> 1"
        by (simp add: auto_created_def)
      with s0 show ?thesis by (rule found)
    next
      case False
      have r1: "?r1 = (Invalid reason_invalid_key, db)"
        by (rule validate_bad_prefix [OF None False])
      have r2: "?r2 = (Invalid reason_invalid_key, db)"
        unfolding r1 by (simp add: validate_bad_prefix [OF None False])
      show ?thesis unfolding r2 by (simp add: None)
    qed
  qed
qed

text \<open>On the license of the example, validated twice from machine \<open>B\<close>.\<close>

theorem validate_twice_no_duplicate_witness:
  "select_by_key db_K ''RATO-AAAA-BBBB-CCCC-DDDD'' = Some license_K
   \<and> count_list (parse_machines (machines_used license_K)) ''B'' \<le> 1
   \<and> (\<exists>l2. select_by_key
               (snd (validateLicense toy_platform iv_zero jan_15_2024
                       (snd (validateLicense toy_platform iv_zero jan_15_2024 db_K ''RATO-AAAA-BBBB-CCCC-DDDD'' ''B''))
                       ''RATO-AAAA-BBBB-CCCC-DDDD'' ''B'')) ''RATO-AAAA-BBBB-CCCC-DDDD'' = Some l2
          \<and> count_list (parse_machines (machines_used l2)) ''B'' = 1)"
proof -
  have s0: "select_by_key db_K ''RATO-AAAA-BBBB-CCCC-DDDD'' = Some license_K"
    by (simp add: select_by_key_def db_K_def license_K_def)
  have h: "\<forall>l. select_by_key db_K ''RATO-AAAA-BBBB-CCCC-DDDD'' = Some l
         \<longrightarrow> count_list (parse_machines (machines_used l)) ''B'' \<le> 1"
    unfolding s0 by (simp add: license_K_def)
  have s1: "select_by_key (snd (validateLicense toy_platform iv_zero jan_15_2024 db_K ''RATO-AAAA-BBBB-CCCC-DDDD'' ''B'')) ''RATO-AAAA-BBBB-CCCC-DDDD''
            = Some (stored_after_validate toy_platform jan_15_2024 ''B'' license_K)"
    by (rule validate_found_snd [OF s0])
  have s2: "select_by_key
               (snd (validateLicense toy_platform iv_zero jan_15_2024
                       (snd (validateLicense toy_platform iv_zero jan_15_2024 db_K ''RATO-AAAA-BBBB-CCCC-DDDD'' ''B''))
                       ''RATO-AAAA-BBBB-CCCC-DDDD'' ''B'')) ''RATO-AAAA-BBBB-CCCC-DDDD''
            = Some (stored_after_validate toy_platform jan_15_2024 ''B''
                      (stored_after_validate toy_platform jan_15_2024 ''B'' license_K))"
    by (rule validate_found_snd [OF s1])
  from validate_twice_no_duplicate [OF h, where pf = toy_platform and ?iv1.0 = iv_zero
         and ?iv2.0 = iv_zero and ?now1.0 = jan_15_2024 and ?now2.0 = jan_15_2024]
  show ?thesis using s0 unfolding s2 by (simp add: license_K_def)
qed

section \<open>Offline tokens\<close>

lemma hex_value_digit_all: "\<forall>n \<in> set [0..<16]. hex_value (hex_digit n) = Some n"
  by code_simp

lemma hex_value_digit: "n < 16 \<Longrightarrow> hex_value (hex_digit n) = Some n"
  using hex_value_digit_all by simp

lemma byte_nibbles: "(of_nat (16 * (unat b div 16) + unat b mod 16) :: byte) = b"
  by simp

lemma byte_high_nibble: "unat (b :: byte) div 16 < 16"
proof -
  have "unat b < 2 ^ LENGTH(8)" by (rule unsigned_less)
  then show ?thesis by simp
qed

lemma fromHex_toHex: "fromHex (toHex bs @ rest) = bs @ fromHex rest"
proof (induction bs)
  case Nil
  show ?case by (simp add: toHex_def)
next
  case (Cons b bs)
  have "toHex (b # bs) = hex_digit (unat b div 16) # hex_digit (unat b mod 16) # toHex bs"
    by (simp add: toHex_def)
  then show ?case
    using Cons.IH byte_high_nibble [of b]
    by (simp add: hex_value_digit)
qed

lemma fromHex_toHex_only: "fromHex (toHex bs) = bs"
  using fromHex_toHex [of bs "[]"] by simp

lemma length_toHex: "length (toHex bs) = 2 * length bs"
  by (induction bs) (simp_all add: toHex_def)

lemma decrypt_encrypt:
  assumes "length iv = IV_LENGTH" and "seals_correctly pf iv d"
  shows "decryptLicenseData pf (encryptLicenseData pf iv d) = Truthy d"
proof -
  obtain encrypted authTag where
    enc: "aes_256_gcm_encrypt pf (getEncryptionKey pf) iv (JSON_stringify pf d)
          = (encrypted, authTag)"
    by (cases "aes_256_gcm_encrypt pf (getEncryptionKey pf) iv (JSON_stringify pf d)")
  from assms(2) have tag: "length authTag = 16"
    and dec: "aes_256_gcm_decrypt pf (getEncryptionKey pf) iv authTag encrypted
              = Some (JSON_stringify pf d)"
    and parse: "JSON_parse pf (JSON_stringify pf d) = Some (Truthy d)"
    by (simp_all add: seals_correctly_def enc AUTH_TAG_LENGTH_def)
  from assms(1) have iv: "length iv = 16" by (simp add: IV_LENGTH_def)
  let ?token = "toHex iv @ toHex authTag @ toHex encrypted"
  have tok: "encryptLicenseData pf iv d = ?token"
    by (simp add: encryptLicenseData_def enc)
  have a: "slice_js ?token 0 32 = toHex iv"
    by (simp add: slice_js_def length_toHex iv)
  have b: "slice_js ?token 32 64 = toHex authTag"
    by (simp add: slice_js_def length_toHex iv tag)
  have c: "slice_from ?token 64 = toHex encrypted"
    by (simp add: slice_from_def length_toHex iv tag)
  show ?thesis
    unfolding tok decryptLicenseData_def
    by (simp add: IV_LENGTH_def AUTH_TAG_LENGTH_def a b c hex_input_def length_toHex
          fromHex_toHex_only dec parse)
qed

text \<open>
  Claim C5. Let \<open>iv\<close> be 16 random bytes and let the library encrypt, decrypt and parse the
  token object of the license correctly (\<open>seals_correctly\<close>). If the license's \<open>expires_at\<close>
  parses to an instant that is not before \<open>now\<close>, then \<open>verifyOfflineToken\<close> of the token
  that \<open>createOfflineToken(license, machineId)\<close> made returns \<open>valid: true\<close> with data
  whose \<open>key\<close>, \<open>machineId\<close> and \<open>expiresAt\<close> are the license's key, the given machine
  and the license's \<open>expires_at\<close>.
\<close>

theorem verify_created_token:
  assumes "length iv = IV_LENGTH"
    and "seals_correctly pf iv (token_fields pf issued lic m)"
    and "parseDate pf (expires_at lic) = Some t" and "now \<le> t"
  shows "\<exists>data. verifyOfflineToken pf now (createOfflineToken pf iv issued lic m)
                  = Inr (Verified data)
              \<and> t_key data = Some (key lic)
              \<and> t_machineId data = Some m
              \<and> t_expiresAt data = Some (expires_at lic)"
proof -
  let ?d = "token_fields pf issued lic m"
  have dec: "decryptLicenseData pf (createOfflineToken pf iv issued lic m) = Truthy ?d"
    unfolding createOfflineToken_def Let_def by (rule decrypt_encrypt [OF assms(1,2)])
  have notexp: "\<not> date_before pf (t_expiresAt ?d) now"
    using assms(3,4) by (simp add: date_before_def token_fields_def)
  have "verifyOfflineToken pf now (createOfflineToken pf iv issued lic m) = Inr (Verified ?d)"
    unfolding verifyOfflineToken_def dec using notexp
    by (simp add: token_fields_def hmac_update_digest_def property_def)
  then show ?thesis by (simp add: token_fields_def)
qed

subsection \<open>The example platform seals correctly\<close>

lemma toy_byte_roundtrip: "char_of (unat (of_nat (of_char c :: nat) :: byte)) = c"
  by (simp add: unat_of_nat)

lemma toy_bytes_roundtrip:
  "map (\<lambda>b. char_of (unat b)) (map (\<lambda>c. of_nat (of_char c :: nat) :: byte) p) = p"
  by (induction p) (simp_all add: toy_byte_roundtrip)

lemma toy_seals:
  assumes "toy_parse (toy_stringify d) = Some (Truthy d)"
  shows "seals_correctly toy_platform iv_zero d"
  using assms toy_bytes_roundtrip [of "toy_stringify d"]
  by (simp add: seals_correctly_def toy_platform_def getEncryptionKey_def AUTH_TAG_LENGTH_def
        iv_zero_def)

lemmas toy_codec =
  toy_stringify_def toy_show_field_def toy_parse_def toy_read_field_def

lemma toy_seals_license_K:
  "seals_correctly toy_platform iv_zero
     (token_fields toy_platform (getTime jan_15_2024) license_K ''A'')"
  by (rule toy_seals)
     (simp add: toy_codec token_fields_def license_K_def toy_platform_def getTime_def localTime_def
        MakeDate_def MakeDay_def DayFromYear_def DaysBeforeMonth_table jan_15_2024_def
        msPerDay_def decimal.simps toHex_def hex_digit_def)


text \<open>The token of the example license for machine \<open>A\<close>, verified on the day of issue.\<close>

theorem verify_created_token_witness:
  "length iv_zero = IV_LENGTH
   \<and> seals_correctly toy_platform iv_zero
        (token_fields toy_platform (getTime jan_15_2024) license_K ''A'')
   \<and> parseDate toy_platform (expires_at license_K) = Some 4070908800000
   \<and> getTime jan_15_2024 \<le> 4070908800000
   \<and> (\<exists>data. verifyOfflineToken toy_platform (getTime jan_15_2024)
                  (createOfflineToken toy_platform iv_zero (getTime jan_15_2024) license_K ''A'')
                = Inr (Verified data)
              \<and> t_key data = Some (key license_K)
              \<and> t_machineId data = Some ''A''
              \<and> t_expiresAt data = Some (expires_at license_K))"
proof -
  have h1: "length iv_zero = IV_LENGTH" by (simp add: iv_zero_def IV_LENGTH_def)
  have h3: "parseDate toy_platform (expires_at license_K) = Some 4070908800000"
    by (simp add: toy_platform_def license_K_def)
  have h4: "getTime jan_15_2024 \<le> 4070908800000"
    by (simp add: getTime_def localTime_def MakeDate_def MakeDay_def DayFromYear_def DaysBeforeMonth_table
          jan_15_2024_def msPerDay_def)
  from verify_created_token [OF h1 toy_seals_license_K h3 h4]
  show ?thesis using h1 toy_seals_license_K h3 h4 by simp
qed

section \<open>The order of the checks of verifyOfflineToken\<close>















end
